theory Spec2Isabelle
  imports Complex_Main "HOL-Library.AList"
begin

section \<open>Data model of \<^verbatim>\<open>bot.py\<close>\<close>

text \<open>
  A decoded JSON value, as \<^verbatim>\<open>r.json()\<close> returns it. A Python dict is an association
  list with one entry per key: \<^verbatim>\<open>d.get(k)\<close> is \<open>map_of d k\<close> and \<^verbatim>\<open>d[k] = v\<close> is
  \<open>AList.update k v d\<close>, which overwrites in place or appends, as a dict does.
  Numbers are integers; strings are byte strings (UTF-8).
\<close>

datatype json =
    JNull
  | JBool bool
  | JNum int
  | JStr string
  | JArr "json list"
  | JObj "(string \<times> json) list"

text \<open>Python truthiness, as tested by \<^verbatim>\<open>if x\<close>, \<^verbatim>\<open>not x\<close>, \<^verbatim>\<open>x or y\<close> and \<^verbatim>\<open>bool(x)\<close>.\<close>

fun truthy :: "json \<Rightarrow> bool" where
  "truthy JNull = False"
| "truthy (JBool b) = b"
| "truthy (JNum n) = (n \<noteq> 0)"
| "truthy (JStr s) = (s \<noteq> [])"
| "truthy (JArr xs) = (xs \<noteq> [])"
| "truthy (JObj kvs) = (kvs \<noteq> [])"

text \<open>
  The exceptions that can leave the code. The three \<^verbatim>\<open>RuntimeError\<close>s are told apart by
  their message: \<open>LoginFailed status text\<close> is \<^verbatim>\<open>RuntimeError(f"Login failed {r.status}: {text}")\<close>,
  \<open>NoTokenFound js\<close> is \<^verbatim>\<open>RuntimeError(f"No token found in login response: {js}")\<close> and
  \<open>HttpError status text\<close> is \<^verbatim>\<open>RuntimeError(f"HTTP {r.status}: {text}")\<close>.
\<close>

datatype error =
    LoginFailed nat string
  | NoTokenFound json
  | HttpError nat string
  | ClientConnectionError
  | TimeoutError
  | ContentTypeError
  | AttributeError
  | KeyError
  | TypeError
  | DiscordException
  | ConfigError

text \<open>\<^verbatim>\<open>x.get(key, default)\<close>: only a dict has the method.\<close>

fun py_get :: "json \<Rightarrow> string \<Rightarrow> json \<Rightarrow> error + json" where
  "py_get (JObj kvs) k d = Inr (case map_of kvs k of None \<Rightarrow> d | Some v \<Rightarrow> v)"
| "py_get _ k d = Inl AttributeError"

text \<open>\<^verbatim>\<open>x[key]\<close> with a string key.\<close>

fun py_subscript :: "json \<Rightarrow> string \<Rightarrow> error + json" where
  "py_subscript (JObj kvs) k = (case map_of kvs k of None \<Rightarrow> Inl KeyError | Some v \<Rightarrow> Inr v)"
| "py_subscript _ k = Inl TypeError"

text \<open>The elements a \<^verbatim>\<open>for\<close> loop over a decoded value visits.\<close>

fun py_iter :: "json \<Rightarrow> error + json list" where
  "py_iter (JArr xs) = Inr xs"
| "py_iter (JObj kvs) = Inr (map (\<lambda>kv. JStr (fst kv)) kvs)"
| "py_iter (JStr cs) = Inr (map (\<lambda>c. JStr [c]) cs)"
| "py_iter _ = Inl TypeError"

fun hashable :: "json \<Rightarrow> bool" where
  "hashable (JArr xs) = False"
| "hashable (JObj kvs) = False"
| "hashable _ = True"

subsection \<open>HTTP\<close>

text \<open>
  A header value is either the string \<^verbatim>\<open>f"Bearer {self._token}"\<close> or a string the caller
  supplied. The keyword arguments of \<^verbatim>\<open>_request\<close> are an optional \<^verbatim>\<open>headers\<close> dict and
  the rest, which is handed to \<^verbatim>\<open>sess.request\<close> untouched.
\<close>

datatype hval = Bearer json | Plain string

record kwargs =
  kw_headers :: "(string \<times> hval) list option"
  kw_rest :: "(string \<times> json) list"

record http_call =
  call_method :: string
  call_url :: string
  call_headers :: "(string \<times> hval) list option"
  call_args :: "(string \<times> json) list"
  call_verify :: bool

text \<open>
  What a call meets: a response (status, \<^verbatim>\<open>r.text()\<close>, and \<^verbatim>\<open>r.json()\<close>, which is \<open>None\<close>
  when the body does not decode), \<^verbatim>\<open>aiohttp.ClientConnectionError\<close> or
  \<^verbatim>\<open>asyncio.TimeoutError\<close>. A body that does not decode makes \<^verbatim>\<open>r.json()\<close> raise
  \<^verbatim>\<open>aiohttp.ContentTypeError\<close> (wrong content type) or \<^verbatim>\<open>json.JSONDecodeError\<close> (malformed
  text); no handler in \<^verbatim>\<open>bot.py\<close> tells the two apart, and both are the error
  \<open>ContentTypeError\<close> here.
\<close>

datatype http_result =
    Response nat string "json option"
  | ConnectionFailed
  | TimedOut

subsection \<open>Effects\<close>

datatype level = Info | Warning

datatype logmsg =
    UsingStaticToken
  | LoggedIn
  | NotReachable
  | RequestTimedOut
  | ServerMapLogged "(string \<times> string) list"
  | GuildNotFound nat
  | SkippingCooldown string
  | FailedToUpdate string error

datatype reply =
    Unauthorized
  | UnknownServer string
  | Starting string
  | Stopping string
  | Restarting string
  | StatusReport string json json json
  | ConfigReloaded

text \<open>
  Every effect the code has on the outside, in the order it happens.
  \<open>Edit ch name now ok\<close> is \<^verbatim>\<open>await ch.edit(name=new_name)\<close> on channel \<open>ch\<close>, issued when the
  clock read \<open>now\<close>; \<open>ok\<close> is False when the call raises. \<open>Send r e\<close> is
  \<^verbatim>\<open>interaction.response.send_message(r, ephemeral=e)\<close>.
\<close>

datatype event =
    Http http_call http_result
  | Log level logmsg
  | Clock real
  | Edit nat string real bool
  | Send reply bool
  | CreateCategory nat string "nat option"
  | CreateVoiceChannel nat string nat "nat option"
  | LoadConfig

text \<open>What \<^verbatim>\<open>load_config\<close> returns, with its defaults filled in.\<close>

record config =
  cfg_update_interval :: int
  cfg_category_name :: string
  cfg_allowed_user_ids :: "json list"
  cfg_allowed_role_names :: "string list"
  cfg_servers :: "(string \<times> string) list"

text \<open>
  The outside world: each answer may depend on everything that has happened so far.
  \<open>respond\<close> is what an HTTP call meets, \<open>clock\<close> is \<^verbatim>\<open>time.time()\<close>, read as a real
  number, \<open>edit_ok\<close> tells whether \<^verbatim>\<open>ch.edit\<close> returns, \<open>read_config\<close> is \<^verbatim>\<open>load_config\<close>.
  \<open>repr\<close> is Python's \<^verbatim>\<open>str()\<close> on a list or a dict; \<open>str_lower\<close> and \<open>str_capitalize\<close>
  are \<^verbatim>\<open>str.lower\<close> and \<^verbatim>\<open>str.capitalize\<close> on a string that is not pure ASCII, where the
  result follows Unicode's case mapping. \<open>bot_guilds\<close> are the ids of
  \<^verbatim>\<open>bot.guilds\<close>; \<open>get_channel h g ch\<close> is the name of \<^verbatim>\<open>guild.get_channel(ch)\<close>, if there
  is such a channel.
\<close>

record env =
  respond :: "event list \<Rightarrow> http_call \<Rightarrow> http_result"
  clock :: "event list \<Rightarrow> real"
  repr :: "json \<Rightarrow> string"
  str_lower :: "string \<Rightarrow> string"
  str_capitalize :: "string \<Rightarrow> string"
  bot_guilds :: "event list \<Rightarrow> nat list"
  get_channel :: "event list \<Rightarrow> nat \<Rightarrow> nat \<Rightarrow> string option"
  edit_ok :: "event list \<Rightarrow> nat \<Rightarrow> string \<Rightarrow> bool"
  find_category :: "event list \<Rightarrow> nat \<Rightarrow> string \<Rightarrow> nat option"
  create_category :: "event list \<Rightarrow> nat \<Rightarrow> string \<Rightarrow> nat option"
  voice_channels :: "event list \<Rightarrow> nat \<Rightarrow> (nat \<times> string) list"
  create_voice_channel :: "event list \<Rightarrow> nat \<Rightarrow> string \<Rightarrow> nat \<Rightarrow> nat option"
  read_config :: "event list \<Rightarrow> error + config"

text \<open>The fields of \<^verbatim>\<open>CraftyClient\<close> that are set once, in \<^verbatim>\<open>__init__\<close>.\<close>

record client =
  base :: string
  username :: "string option"
  password :: "string option"
  bearer_token :: "string option"
  verify_ssl :: bool

text \<open>
  The module's globals, \<^verbatim>\<open>crafty_client._token\<close>, and the effects so far. The aiohttp
  session, which \<^verbatim>\<open>session()\<close> creates without a network call, is left out.
\<close>

record state =
  trace :: "event list"
  token :: "json option"
  cfg :: config
  SERVERS_CFG :: "(string \<times> string) list"
  CATEGORY_NAME :: string
  update_interval :: int
  server_map :: "(string \<times> string) list"
  channel_map :: "(nat \<times> (string \<times> nat) list) list"
  channel_last_update :: "(nat \<times> real) list"

definition emit :: "event list \<Rightarrow> state \<Rightarrow> state" where
  "emit es s = s\<lparr>trace := trace s @ es\<rparr>"

section \<open>Crafty API client\<close>

text \<open>\<^verbatim>\<open>if self.bearer_token\<close>: a token that is set and not the empty string.\<close>

definition has_bearer :: "client \<Rightarrow> bool" where
  "has_bearer c = (case bearer_token c of None \<Rightarrow> False | Some t \<Rightarrow> t \<noteq> [])"

definition opt_str :: "string option \<Rightarrow> json" where
  "opt_str x = (case x of None \<Rightarrow> JNull | Some v \<Rightarrow> JStr v)"

definition login_call :: "client \<Rightarrow> http_call" where
  "login_call c =
     \<lparr>call_method = ''POST'', call_url = base c @ ''/api/v2/auth/login'', call_headers = None,
      call_args = [(''json'', JObj [(''username'', opt_str (username c)),
                                    (''password'', opt_str (password c))])],
      call_verify = verify_ssl c\<rparr>"

text \<open>
  \<^verbatim>\<open>js.get("data", {}).get("token") or js.get("token") or js.get("data")\<close>.
  The first \<^verbatim>\<open>.get\<close> needs \<open>js\<close> to be a dict, the second needs \<^verbatim>\<open>js["data"]\<close> to be one
  when it is there.
\<close>

definition extract_token :: "json \<Rightarrow> error + json" where
  "extract_token js =
     (case py_get js ''data'' (JObj []) of
        Inl e \<Rightarrow> Inl e
      | Inr d \<Rightarrow>
          (case py_get d ''token'' JNull of
             Inl e \<Rightarrow> Inl e
           | Inr t1 \<Rightarrow>
               if truthy t1 then Inr t1
               else (case py_get js ''token'' JNull of
                       Inl e \<Rightarrow> Inl e
                     | Inr t2 \<Rightarrow> if truthy t2 then Inr t2 else py_get js ''data'' JNull)))"

definition login :: "env \<Rightarrow> client \<Rightarrow> state \<Rightarrow> (error + json) \<times> state" where
  "login en c s =
     (if has_bearer c then
        (Inr (opt_str (bearer_token c)),
         emit [Log Info UsingStaticToken] (s\<lparr>token := Some (opt_str (bearer_token c))\<rparr>))
      else
        let r = respond en (trace s) (login_call c);
            s1 = emit [Http (login_call c) r] s
        in case r of
             ConnectionFailed \<Rightarrow> (Inl ClientConnectionError, s1)
           | TimedOut \<Rightarrow> (Inl TimeoutError, s1)
           | Response status text body \<Rightarrow>
               if status \<ge> 400 then (Inl (LoginFailed status text), s1)
               else (case body of
                       None \<Rightarrow> (Inl ContentTypeError, s1)
                     | Some js \<Rightarrow>
                         (case extract_token js of
                            Inl e \<Rightarrow> (Inl e, s1)
                          | Inr tok \<Rightarrow>
                              if \<not> truthy tok then (Inl (NoTokenFound js), s1)
                              else (Inr tok, emit [Log Info LoggedIn] (s1\<lparr>token := Some tok\<rparr>)))))"

text \<open>
  The headers \<^verbatim>\<open>_request\<close> sends: \<^verbatim>\<open>kwargs.pop("headers", {})\<close>, with the Authorization
  entry set when \<^verbatim>\<open>self._token\<close> is truthy.
\<close>

definition request_headers :: "state \<Rightarrow> kwargs \<Rightarrow> (string \<times> hval) list" where
  "request_headers s kw =
     (let headers = (case kw_headers kw of None \<Rightarrow> [] | Some h \<Rightarrow> h)
      in case token s of
           None \<Rightarrow> headers
         | Some t \<Rightarrow> if truthy t then AList.update ''Authorization'' (Bearer t) headers else headers)"

definition request_call :: "client \<Rightarrow> state \<Rightarrow> string \<Rightarrow> string \<Rightarrow> kwargs \<Rightarrow> http_call" where
  "request_call c s method path kw =
     \<lparr>call_method = method, call_url = base c @ path,
      call_headers = Some (request_headers s kw), call_args = kw_rest kw,
      call_verify = verify_ssl c\<rparr>"

text \<open>The two \<^verbatim>\<open>except\<close> clauses of \<^verbatim>\<open>_request\<close>: log a warning, raise again.\<close>

definition transport_log :: "error + json \<Rightarrow> event list" where
  "transport_log res =
     (case res of
        Inl ClientConnectionError \<Rightarrow> [Log Warning NotReachable]
      | Inl TimeoutError \<Rightarrow> [Log Warning RequestTimedOut]
      | _ \<Rightarrow> [])"

text \<open>
  \<^verbatim>\<open>_request\<close>. The call to \<^verbatim>\<open>login\<close> and the retry are inside the \<^verbatim>\<open>try\<close>, so a
  transport error from either is logged here as well. The retry is made with the
  keyword arguments left after \<^verbatim>\<open>headers\<close> was popped.
\<close>

function request ::
  "env \<Rightarrow> client \<Rightarrow> state \<Rightarrow> string \<Rightarrow> string \<Rightarrow> bool \<Rightarrow> kwargs \<Rightarrow> (error + json) \<times> state" where
  "request en c s method path retry kw =
     (let call = request_call c s method path kw;
          r = respond en (trace s) call;
          s1 = emit [Http call r] s;
          out = (case r of
                   ConnectionFailed \<Rightarrow> (Inl ClientConnectionError, s1)
                 | TimedOut \<Rightarrow> (Inl TimeoutError, s1)
                 | Response status text body \<Rightarrow>
                     if status = 401 \<and> retry \<and> \<not> has_bearer c then
                       (case login en c s1 of
                          (Inl e, s2) \<Rightarrow> (Inl e, s2)
                        | (Inr tok, s2) \<Rightarrow>
                            request en c s2 method path False (kw\<lparr>kw_headers := None\<rparr>))
                     else if status \<ge> 400 then (Inl (HttpError status text), s1)
                     else (case body of
                             None \<Rightarrow> (Inl ContentTypeError, s1)
                           | Some js \<Rightarrow> (Inr js, s1)))
      in (fst out, emit (transport_log (fst out)) (snd out)))"
  by pat_completeness auto
termination
  by (relation "measure (\<lambda>(en, c, s, method, path, retry, kw). if retry then 1 else 0)") auto

declare request.simps [simp del]

definition no_kwargs :: kwargs where
  "no_kwargs = \<lparr>kw_headers = None, kw_rest = []\<rparr>"

definition get_servers :: "env \<Rightarrow> client \<Rightarrow> state \<Rightarrow> (error + json) \<times> state" where
  "get_servers en c s =
     (case request en c s ''GET'' ''/api/v2/servers'' True no_kwargs of
        (Inl e, s1) \<Rightarrow> (Inl e, s1)
      | (Inr data, s1) \<Rightarrow> (py_get data ''data'' (JArr []), s1))"

definition action_server ::
  "env \<Rightarrow> client \<Rightarrow> state \<Rightarrow> string \<Rightarrow> string \<Rightarrow> (error + json) \<times> state" where
  "action_server en c s server_id action =
     request en c s ''POST'' (''/api/v2/servers/'' @ server_id @ ''/action/'' @ action) True no_kwargs"

definition get_public :: "env \<Rightarrow> client \<Rightarrow> state \<Rightarrow> string \<Rightarrow> (error + json) \<times> state" where
  "get_public en c s server_id =
     (case request en c s ''GET'' (''/api/v2/servers/'' @ server_id @ ''/public'') True no_kwargs of
        (Inl e, s1) \<Rightarrow> (Inl e, s1)
      | (Inr data, s1) \<Rightarrow> (py_get data ''data'' (JObj []), s1))"

definition get_stats :: "env \<Rightarrow> client \<Rightarrow> state \<Rightarrow> string \<Rightarrow> (error + json) \<times> state" where
  "get_stats en c s server_id =
     (case request en c s ''GET'' (''/api/v2/servers/'' @ server_id @ ''/stats'') True no_kwargs of
        (Inl e, s1) \<Rightarrow> (Inl e, s1)
      | (Inr data, s1) \<Rightarrow> (py_get data ''data'' (JObj []), s1))"

section \<open>Helpers\<close>

text \<open>Python's \<^verbatim>\<open>str()\<close>: decimal digits for an integer, the string itself for a string.\<close>

function dec :: "nat \<Rightarrow> string" where
  "dec n = (if n < 10 then [char_of (48 + n)] else dec (n div 10) @ [char_of (48 + n mod 10)])"
  by pat_completeness auto
termination
  by (relation "measure id") auto

declare dec.simps [simp del]

fun py_str :: "env \<Rightarrow> json \<Rightarrow> string" where
  "py_str en (JStr s) = s"
| "py_str en (JNum n) = (if n < 0 then ''-'' @ dec (nat (- n)) else dec (nat n))"
| "py_str en (JBool b) = (if b then ''True'' else ''False'')"
| "py_str en JNull = ''None''"
| "py_str en v = repr en v"

text \<open>
  The caller of a command: \<^verbatim>\<open>ctx.user.id\<close> and the names of \<^verbatim>\<open>ctx.user.roles\<close>. In a guild
  the caller is a member and has roles; in a direct message the caller is a plain user,
  an object without the attribute \<^verbatim>\<open>roles\<close>: then \<open>user_roles\<close> is \<open>None\<close>. The commands are
  registered globally, so they can be invoked from both places.
\<close>

record interaction =
  user_id :: nat
  user_roles :: "string list option"

fun role_allowed :: "string list \<Rightarrow> string list \<Rightarrow> bool" where
  "role_allowed [] allowed = False"
| "role_allowed (role # roles) allowed =
     (if role \<in> set allowed then True else role_allowed roles allowed)"

text \<open>
  \<^verbatim>\<open>is_authorized\<close>. The id test comes first; \<^verbatim>\<open>ctx.user.roles\<close> is read only when it fails, and
  raises AttributeError for a caller without roles.
\<close>

definition is_authorized :: "env \<Rightarrow> state \<Rightarrow> interaction \<Rightarrow> error + bool" where
  "is_authorized en s ctx =
     (if py_str en (JNum (int (user_id ctx)))
           \<in> set (map (py_str en) (cfg_allowed_user_ids (cfg s)))
      then Inr True
      else (case user_roles ctx of
              None \<Rightarrow> Inl AttributeError
            | Some roles \<Rightarrow> Inr (role_allowed roles (cfg_allowed_role_names (cfg s)))))"

text \<open>
  The dict comprehension \<^verbatim>\<open>{s["server_name"]: str(s["server_id"]) for s in servers}\<close>:
  a later server of the same name overwrites an earlier one.
\<close>

fun id_by_name :: "env \<Rightarrow> json list \<Rightarrow> (json \<times> string) list \<Rightarrow> error + (json \<times> string) list" where
  "id_by_name en [] acc = Inr acc"
| "id_by_name en (sv # rest) acc =
     (case py_subscript sv ''server_name'' of
        Inl e \<Rightarrow> Inl e
      | Inr name \<Rightarrow>
          (case py_subscript sv ''server_id'' of
             Inl e \<Rightarrow> Inl e
           | Inr sid \<Rightarrow>
               if hashable name then id_by_name en rest (AList.update name (py_str en sid) acc)
               else Inl TypeError))"

text \<open>\<^verbatim>\<open>id_by_name.get(craft_name) or str(craft_name)\<close>; an empty identifier is falsy.\<close>

definition resolve :: "(json \<times> string) list \<Rightarrow> string \<Rightarrow> string" where
  "resolve idx craft_name =
     (case map_of idx (JStr craft_name) of
        None \<Rightarrow> craft_name
      | Some sid \<Rightarrow> if sid \<noteq> [] then sid else craft_name)"

fun new_map :: "(json \<times> string) list \<Rightarrow> (string \<times> string) list \<Rightarrow> (string \<times> string) list
                \<Rightarrow> (string \<times> string) list" where
  "new_map idx [] acc = acc"
| "new_map idx ((friendly, craft_name) # rest) acc =
     new_map idx rest (AList.update friendly (resolve idx craft_name) acc)"

definition refresh_server_map :: "env \<Rightarrow> client \<Rightarrow> state \<Rightarrow> (error + unit) \<times> state" where
  "refresh_server_map en c s =
     (case get_servers en c s of
        (Inl e, s1) \<Rightarrow> (Inl e, s1)
      | (Inr servers, s1) \<Rightarrow>
          (case py_iter servers of
             Inl e \<Rightarrow> (Inl e, s1)
           | Inr svs \<Rightarrow>
               (case id_by_name en svs [] of
                  Inl e \<Rightarrow> (Inl e, s1)
                | Inr idx \<Rightarrow>
                    let m = new_map idx (SERVERS_CFG s1) []
                    in (Inr (), emit [Log Info (ServerMapLogged m)] (s1\<lparr>server_map := m\<rparr>)))))"

subsection \<open>Strings\<close>

text \<open>
  \<^verbatim>\<open>str.lower\<close> and \<^verbatim>\<open>str.capitalize\<close>. On a pure ASCII string they are computed here:
  \<^verbatim>\<open>lower\<close> maps A to Z to a to z, \<^verbatim>\<open>capitalize\<close> puts the first character in upper case
  and the rest in lower case. On any other string the result is the outside world's.
\<close>

definition upper_char :: "char \<Rightarrow> char" where
  "upper_char ch = (let n = of_char ch :: nat in if 97 \<le> n \<and> n \<le> 122 then char_of (n - 32) else ch)"

definition lower_char :: "char \<Rightarrow> char" where
  "lower_char ch = (let n = of_char ch :: nat in if 65 \<le> n \<and> n \<le> 90 then char_of (n + 32) else ch)"

definition is_ascii :: "string \<Rightarrow> bool" where
  "is_ascii s = list_all (\<lambda>ch. (of_char ch :: nat) < 128) s"

definition lower :: "env \<Rightarrow> string \<Rightarrow> string" where
  "lower en s = (if is_ascii s then map lower_char s else str_lower en s)"

definition capitalize :: "env \<Rightarrow> string \<Rightarrow> string" where
  "capitalize en s =
     (if is_ascii s
      then (case s of [] \<Rightarrow> [] | ch # rest \<Rightarrow> upper_char ch # map lower_char rest)
      else str_capitalize en s)"

text \<open>The three emoji, as their UTF-8 bytes.\<close>

definition green_circle :: string where
  "green_circle = [CHR 0xF0, CHR 0x9F, CHR 0x9F, CHR 0xA2]"

definition red_circle :: string where
  "red_circle = [CHR 0xF0, CHR 0x9F, CHR 0x94, CHR 0xB4]"

definition arrows :: string where
  "arrows = [CHR 0xF0, CHR 0x9F, CHR 0x94, CHR 0x84]"

text \<open>\<^verbatim>\<open>sub in s\<close> on strings.\<close>

fun contains :: "string \<Rightarrow> string \<Rightarrow> bool" where
  "contains sub [] = (sub = [])"
| "contains sub (x # xs) = (take (length sub) (x # xs) = sub \<or> contains sub xs)"

section \<open>Channel setup\<close>

fun find_channel :: "env \<Rightarrow> string \<Rightarrow> (nat \<times> string) list \<Rightarrow> nat option" where
  "find_channel en friendly [] = None"
| "find_channel en friendly ((ch_id, name) # chs) =
     (if contains (lower en friendly) (lower en name) then Some ch_id
      else find_channel en friendly chs)"

definition set_binding :: "nat \<Rightarrow> string \<Rightarrow> nat \<Rightarrow> state \<Rightarrow> state" where
  "set_binding g friendly ch_id s =
     s\<lparr>channel_map :=
          AList.update g
            (AList.update friendly ch_id (case map_of (channel_map s) g of None \<Rightarrow> [] | Some m \<Rightarrow> m))
            (channel_map s)\<rparr>"

fun ensure_each :: "env \<Rightarrow> nat \<Rightarrow> nat \<Rightarrow> string list \<Rightarrow> state \<Rightarrow> (error + unit) \<times> state" where
  "ensure_each en g category [] s = (Inr (), s)"
| "ensure_each en g category (friendly # rest) s =
     (case find_channel en friendly (voice_channels en (trace s) category) of
        Some ch_id \<Rightarrow> ensure_each en g category rest (set_binding g friendly ch_id s)
      | None \<Rightarrow>
          let name = arrows @ '' '' @ capitalize en friendly @ ''...'';
              r = create_voice_channel en (trace s) g name category;
              s1 = emit [CreateVoiceChannel g name category r] s
          in (case r of
                None \<Rightarrow> (Inl DiscordException, s1)
              | Some ch_id \<Rightarrow> ensure_each en g category rest (set_binding g friendly ch_id s1)))"

definition ensure_channels_for_guild :: "env \<Rightarrow> nat \<Rightarrow> state \<Rightarrow> (error + unit) \<times> state" where
  "ensure_channels_for_guild en g s =
     (let found = find_category en (trace s) g (CATEGORY_NAME s);
          created = (case found of
                       None \<Rightarrow> create_category en (trace s) g (CATEGORY_NAME s)
                     | Some cat \<Rightarrow> Some cat);
          s1 = (case found of
                  None \<Rightarrow> emit [CreateCategory g (CATEGORY_NAME s) created] s
                | Some cat \<Rightarrow> s)
      in case created of
           None \<Rightarrow> (Inl DiscordException, s1)
         | Some category \<Rightarrow>
             let s2 = (case map_of (channel_map s1) g of
                         None \<Rightarrow> s1\<lparr>channel_map := AList.update g [] (channel_map s1)\<rparr>
                       | Some m \<Rightarrow> s1)
             in ensure_each en g category (map fst (SERVERS_CFG s2)) s2)"

section \<open>Slash commands\<close>

definition send :: "reply \<Rightarrow> bool \<Rightarrow> state \<Rightarrow> state" where
  "send r ephemeral s = emit [Send r ephemeral] s"

text \<open>
  The body \<^verbatim>\<open>start\<close>, \<^verbatim>\<open>stop\<close> and \<^verbatim>\<open>restart\<close> share; they differ in the action name and
  in the reply.
\<close>

definition action_command ::
  "string \<Rightarrow> (string \<Rightarrow> reply) \<Rightarrow> env \<Rightarrow> client \<Rightarrow> state \<Rightarrow> interaction \<Rightarrow> string
   \<Rightarrow> (error + unit) \<times> state" where
  "action_command action done en c s ctx server =
     (case is_authorized en s ctx of
        Inl e \<Rightarrow> (Inl e, s)
      | Inr authorized \<Rightarrow>
          if \<not> authorized then (Inr (), send Unauthorized True s)
          else (case map_of (server_map s) server of
                  None \<Rightarrow> (Inr (), send (UnknownServer server) True s)
                | Some sid \<Rightarrow>
                    if sid = [] then (Inr (), send (UnknownServer server) True s)
                    else (case action_server en c s sid action of
                            (Inl e, s1) \<Rightarrow> (Inl e, s1)
                          | (Inr _, s1) \<Rightarrow> (Inr (), send (done server) False s1))))"

definition start :: "env \<Rightarrow> client \<Rightarrow> state \<Rightarrow> interaction \<Rightarrow> string \<Rightarrow> (error + unit) \<times> state" where
  "start = action_command ''start_server'' Starting"

definition stop :: "env \<Rightarrow> client \<Rightarrow> state \<Rightarrow> interaction \<Rightarrow> string \<Rightarrow> (error + unit) \<times> state" where
  "stop = action_command ''stop_server'' Stopping"

definition restart :: "env \<Rightarrow> client \<Rightarrow> state \<Rightarrow> interaction \<Rightarrow> string \<Rightarrow> (error + unit) \<times> state" where
  "restart = action_command ''restart_server'' Restarting"

definition status :: "env \<Rightarrow> client \<Rightarrow> state \<Rightarrow> interaction \<Rightarrow> string \<Rightarrow> (error + unit) \<times> state" where
  "status en c s ctx server =
     (case is_authorized en s ctx of
        Inl e \<Rightarrow> (Inl e, s)
      | Inr authorized \<Rightarrow>
          if \<not> authorized then (Inr (), send Unauthorized True s)
          else (case map_of (server_map s) server of
                  None \<Rightarrow> (Inr (), send (UnknownServer server) True s)
                | Some sid \<Rightarrow>
                    if sid = [] then (Inr (), send (UnknownServer server) True s)
                    else (case get_public en c s sid of
                            (Inl e, s1) \<Rightarrow> (Inl e, s1)
                          | (Inr data, s1) \<Rightarrow>
                              (case (py_get data ''running'' JNull, py_get data ''online'' JNull,
                                     py_get data ''max'' JNull) of
                                 (Inr r, Inr on, Inr mx) \<Rightarrow>
                                   (Inr (), send (StatusReport server r on mx) False s1)
                               | _ \<Rightarrow> (Inl AttributeError, s1)))))"

fun ensure_all :: "env \<Rightarrow> nat list \<Rightarrow> state \<Rightarrow> (error + unit) \<times> state" where
  "ensure_all en [] s = (Inr (), s)"
| "ensure_all en (g # gs) s =
     (case ensure_channels_for_guild en g s of
        (Inl e, s1) \<Rightarrow> (Inl e, s1)
      | (Inr _, s1) \<Rightarrow> ensure_all en gs s1)"

definition reload_config :: "env \<Rightarrow> client \<Rightarrow> state \<Rightarrow> interaction \<Rightarrow> (error + unit) \<times> state" where
  "reload_config en c s ctx =
     (case is_authorized en s ctx of
        Inl e \<Rightarrow> (Inl e, s)
      | Inr authorized \<Rightarrow>
          if \<not> authorized then (Inr (), send Unauthorized True s)
          else
            let s0 = emit [LoadConfig] s
            in (case read_config en (trace s) of
                  Inl e \<Rightarrow> (Inl e, s0)
                | Inr new_cfg \<Rightarrow>
                    let s1 = s0\<lparr>cfg := new_cfg, SERVERS_CFG := cfg_servers new_cfg,
                                CATEGORY_NAME := cfg_category_name new_cfg,
                                update_interval := cfg_update_interval new_cfg\<rparr>
                    in (case refresh_server_map en c s1 of
                          (Inl e, s2) \<Rightarrow> (Inl e, s2)
                        | (Inr _, s2) \<Rightarrow>
                            (case ensure_all en (bot_guilds en (trace s2)) s2 of
                               (Inl e, s3) \<Rightarrow> (Inl e, s3)
                             | (Inr _, s3) \<Rightarrow> (Inr (), send ConfigReloaded True s3)))))"

section \<open>Background task\<close>

definition CHANNEL_COOLDOWN :: real where
  "CHANNEL_COOLDOWN = 15"

text \<open>The name the channel should have: the conditional expression of \<^verbatim>\<open>update_task\<close>.\<close>

definition new_name :: "env \<Rightarrow> string \<Rightarrow> bool \<Rightarrow> string" where
  "new_name en friendly running =
     (if running then green_circle @ '' '' @ capitalize en friendly @ '': Online''
      else red_circle @ '' '' @ capitalize en friendly @ '': Offline'')"

definition log_failed :: "string \<Rightarrow> error \<Rightarrow> state \<Rightarrow> state" where
  "log_failed friendly e s = emit [Log Warning (FailedToUpdate friendly e)] s"

text \<open>
  The body of the inner loop, for one \<^verbatim>\<open>(friendly, ch_id)\<close> of guild \<open>g\<close>: everything from
  \<^verbatim>\<open>sid = server_map.get(friendly)\<close> to the \<^verbatim>\<open>except\<close> clause.
\<close>

definition update_binding :: "env \<Rightarrow> client \<Rightarrow> nat \<Rightarrow> string \<Rightarrow> nat \<Rightarrow> state \<Rightarrow> state" where
  "update_binding en c g friendly ch_id s =
     (case map_of (server_map s) friendly of
        None \<Rightarrow> s
      | Some sid \<Rightarrow>
          if sid = [] then s
          else (case get_stats en c s sid of
                  (Inl e, s1) \<Rightarrow> log_failed friendly e s1
                | (Inr data, s1) \<Rightarrow>
                    (case py_get data ''running'' JNull of
                       Inl e \<Rightarrow> log_failed friendly e s1
                     | Inr rv \<Rightarrow>
                         (case get_channel en (trace s1) g ch_id of
                            None \<Rightarrow> s1
                          | Some name \<Rightarrow>
                              if name = new_name en friendly (truthy rv) then s1
                              else
                                let now = clock en (trace s1);
                                    s2 = emit [Clock now] s1;
                                    last = (case map_of (channel_last_update s2) ch_id of
                                              None \<Rightarrow> 0
                                            | Some t \<Rightarrow> t)
                                in if now - last < CHANNEL_COOLDOWN
                                   then emit [Log Info (SkippingCooldown name)] s2
                                   else if edit_ok en (trace s2) ch_id (new_name en friendly (truthy rv))
                                   then (emit [Edit ch_id (new_name en friendly (truthy rv)) now True] s2)
                                          \<lparr>channel_last_update :=
                                             AList.update ch_id now (channel_last_update s2)\<rparr>
                                   else log_failed friendly DiscordException
                                          (emit [Edit ch_id (new_name en friendly (truthy rv)) now False] s2)))))"

fun update_bindings :: "env \<Rightarrow> client \<Rightarrow> nat \<Rightarrow> (string \<times> nat) list \<Rightarrow> state \<Rightarrow> state" where
  "update_bindings en c g [] s = s"
| "update_bindings en c g ((friendly, ch_id) # rest) s =
     update_bindings en c g rest (update_binding en c g friendly ch_id s)"

fun update_guilds :: "env \<Rightarrow> client \<Rightarrow> (nat \<times> (string \<times> nat) list) list \<Rightarrow> state \<Rightarrow> state" where
  "update_guilds en c [] s = s"
| "update_guilds en c ((guild_id, per_guild_map) # rest) s =
     (if guild_id \<notin> set (bot_guilds en (trace s))
      then update_guilds en c rest (emit [Log Warning (GuildNotFound guild_id)] s)
      else update_guilds en c rest (update_bindings en c guild_id per_guild_map s))"

text \<open>
  One run of \<^verbatim>\<open>update_task\<close>. \<^verbatim>\<open>refresh_server_map\<close> is awaited outside any \<^verbatim>\<open>try\<close>, so
  what it raises leaves the task.
\<close>

definition update_task :: "env \<Rightarrow> client \<Rightarrow> state \<Rightarrow> (error + unit) \<times> state" where
  "update_task en c s =
     (case refresh_server_map en c s of
        (Inl e, s1) \<Rightarrow> (Inl e, s1)
      | (Inr _, s1) \<Rightarrow> (Inr (), update_guilds en c (channel_map s1) s1))"

text \<open>
  \<open>n\<close> runs of the task, one after the other, each from the state the one before left
  (also when that one raised).
\<close>

fun poll_cycles :: "env \<Rightarrow> client \<Rightarrow> nat \<Rightarrow> state \<Rightarrow> state" where
  "poll_cycles en c 0 s = s"
| "poll_cycles en c (Suc n) s = poll_cycles en c n (snd (update_task en c s))"

section \<open>Reading results and traces\<close>

text \<open>
  What \<^verbatim>\<open>_request\<close> does with an answer it does not retry: the two \<^verbatim>\<open>except\<close> clauses,
  \<^verbatim>\<open>if r.status >= 400\<close>, and \<^verbatim>\<open>return await r.json()\<close>.
\<close>

definition final_result :: "http_result \<Rightarrow> error + json" where
  "final_result r =
     (case r of
        ConnectionFailed \<Rightarrow> Inl ClientConnectionError
      | TimedOut \<Rightarrow> Inl TimeoutError
      | Response st text body \<Rightarrow>
          if st \<ge> 400 then Inl (HttpError st text)
          else (case body of None \<Rightarrow> Inl ContentTypeError | Some js \<Rightarrow> Inr js))"

text \<open>
  Reading a trace. \<open>rename_times ch\<close> are the clock readings at which the successful renames
  of channel \<open>ch\<close> were issued, oldest first; \<open>edit_names\<close> are the names of all renames
  issued, successful or not.
\<close>

fun rename_times :: "nat \<Rightarrow> event list \<Rightarrow> real list" where
  "rename_times ch [] = []"
| "rename_times ch (Edit ch' name t ok # es) =
     (if ch' = ch \<and> ok then t # rename_times ch es else rename_times ch es)"
| "rename_times ch (ev # es) = rename_times ch es"

text \<open>
  \<open>cooled ch prev tr\<close> follows the renames of channel \<open>ch\<close> through \<open>tr\<close>, \<open>prev\<close> being
  the reading of its latest successful rename so far: every rename of \<open>ch\<close>, successful or
  not, is issued at least the cooldown after that reading.
\<close>

fun cooled :: "nat \<Rightarrow> real option \<Rightarrow> event list \<Rightarrow> bool" where
  "cooled ch prev [] = True"
| "cooled ch prev (Edit ch' name t ok # es) =
     (if ch' = ch
      then (case prev of None \<Rightarrow> True | Some l \<Rightarrow> l + CHANNEL_COOLDOWN \<le> t)
           \<and> cooled ch (if ok then Some t else prev) es
      else cooled ch prev es)"
| "cooled ch prev (ev # es) = cooled ch prev es"


text \<open>
  For the proofs: the latest successful rename of a channel, and the invariant that ties
  it to \<^verbatim>\<open>channel_last_update\<close>.
\<close>

definition last_rename :: "nat \<Rightarrow> event list \<Rightarrow> real option" where
  "last_rename ch tr =
     (if rename_times ch tr = [] then None else Some (last (rename_times ch tr)))"

definition cooldown_inv :: "nat \<Rightarrow> state \<Rightarrow> bool" where
  "cooldown_inv ch s =
     (cooled ch None (trace s)
      \<and> (case last_rename ch (trace s) of
            None \<Rightarrow> True
          | Some t \<Rightarrow> map_of (channel_last_update s) ch = Some t))"

text \<open>
  \<open>only_client_state s s'\<close>: from \<open>s\<close> to \<open>s'\<close> nothing but the effects and the client's
  token has changed, and the new effects hold no channel edit. \<open>quiet_step s s'\<close>: the new
  effects hold no channel edit and no rename time has been recorded.
\<close>

fun is_edit :: "event \<Rightarrow> bool" where
  "is_edit (Edit ch name t ok) = True"
| "is_edit _ = False"

definition only_client_state :: "state \<Rightarrow> state \<Rightarrow> bool" where
  "only_client_state s s' =
     (s' = s\<lparr>trace := trace s', token := token s'\<rparr>
      \<and> take (length (trace s)) (trace s') = trace s
      \<and> filter is_edit (drop (length (trace s)) (trace s')) = [])"

definition quiet_step :: "state \<Rightarrow> state \<Rightarrow> bool" where
  "quiet_step s s' =
     (take (length (trace s)) (trace s') = trace s
      \<and> filter is_edit (drop (length (trace s)) (trace s')) = []
      \<and> channel_last_update s' = channel_last_update s)"

section \<open>Example inputs\<close>

text \<open>
  An outside world with no guilds and an unreachable Crafty; the examples below change
  the answers they need.
\<close>

definition no_discord :: env where
  "no_discord =
     \<lparr>respond = (\<lambda>h call. ConnectionFailed), clock = (\<lambda>h. 0), repr = (\<lambda>v. ''[...]''),
      str_lower = map lower_char,
      str_capitalize = (\<lambda>s. case s of [] \<Rightarrow> [] | ch # rest \<Rightarrow> upper_char ch # map lower_char rest),
      bot_guilds = (\<lambda>h. []), get_channel = (\<lambda>h g ch. None), edit_ok = (\<lambda>h ch name. True),
      find_category = (\<lambda>h g name. None), create_category = (\<lambda>h g name. None),
      voice_channels = (\<lambda>h cat. []), create_voice_channel = (\<lambda>h g name cat. None),
      read_config = (\<lambda>h. Inl ConfigError)\<rparr>"

definition user_client :: client where
  "user_client = \<lparr>base = ''http://crafty'', username = Some ''admin'', password = Some ''pw'',
                   bearer_token = None, verify_ssl = True\<rparr>"

definition token_client :: client where
  "token_client = \<lparr>base = ''http://crafty'', username = None, password = None,
                    bearer_token = Some ''static'', verify_ssl = True\<rparr>"

definition example_cfg :: config where
  "example_cfg = \<lparr>cfg_update_interval = 60, cfg_category_name = ''Crafty Servers'',
                   cfg_allowed_user_ids = [JNum 1001], cfg_allowed_role_names = [''Admin''],
                   cfg_servers = [(''survival'', ''SMP''), (''creative'', ''7f3a'')]\<rparr>"

definition init_state :: "config \<Rightarrow> state" where
  "init_state cf =
     \<lparr>trace = [], token = None, cfg = cf, SERVERS_CFG = cfg_servers cf,
      CATEGORY_NAME = cfg_category_name cf, update_interval = cfg_update_interval cf,
      server_map = [], channel_map = [], channel_last_update = []\<rparr>"

definition ok_servers :: http_result where
  "ok_servers = Response 200 [] (Some (JObj [(''data'',
       JArr [JObj [(''server_name'', JStr ''SMP''), (''server_id'', JStr ''42'')]])]))"

definition relogin_env :: env where
  "relogin_env = no_discord\<lparr>respond := (\<lambda>h call.
       if call = login_call user_client
       then Response 200 [] (Some (JObj [(''data'', JObj [(''token'', JStr ''t2'')])]))
       else if h = [] then Response 401 ''expired'' None
       else ok_servers)\<rparr>"

definition login_down_env :: env where
  "login_down_env = no_discord\<lparr>respond := (\<lambda>h call.
       if call = login_call user_client then Response 500 ''down'' None
       else Response 401 ''expired'' None)\<rparr>"

definition always_401_env :: env where
  "always_401_env = no_discord\<lparr>respond := (\<lambda>h call. Response 401 ''denied'' None)\<rparr>"

definition data_is_token_env :: env where
  "data_is_token_env = no_discord\<lparr>respond := (\<lambda>h call.
       Response 200 [] (Some (JObj [(''data'', JStr ''abc'')])))\<rparr>"

definition servers_env :: "http_result \<Rightarrow> env" where
  "servers_env r = no_discord\<lparr>respond := (\<lambda>h call. r)\<rparr>"

definition empty_id_servers :: http_result where
  "empty_id_servers = Response 200 [] (Some (JObj [(''data'',
       JArr [JObj [(''server_name'', JStr ''SMP''), (''server_id'', JStr [])]])]))"

definition no_data_servers :: http_result where
  "no_data_servers = Response 200 [] (Some (JObj [(''status'', JStr ''ok'')]))"

text \<open>The body \<^verbatim>\<open>{"data": null}\<close>, with status 200.\<close>

definition null_data_servers :: http_result where
  "null_data_servers = Response 200 [] (Some (JObj [(''data'', JNull)]))"

text \<open>
  The session has expired: the first request is answered 401, the login yields the token
  \<open>t2\<close>, and every later request is answered with the body that has no \<^verbatim>\<open>data\<close> key.
\<close>

definition relogin_no_data_env :: env where
  "relogin_no_data_env = no_discord\<lparr>respond := (\<lambda>h call.
       if call = login_call user_client
       then Response 200 [] (Some (JObj [(''data'', JObj [(''token'', JStr ''t2'')])]))
       else if h = [] then Response 401 ''expired'' None
       else no_data_servers)\<rparr>"

text \<open>
  A state whose map was filled earlier: \<open>survival\<close> resolved to 41, and \<open>legacy\<close>, a name
  that is no longer configured.
\<close>

definition populated_state :: state where
  "populated_state =
     (init_state example_cfg)\<lparr>server_map := [(''survival'', ''41''), (''legacy'', ''9'')]\<rparr>"

definition member_ctx :: interaction where
  "member_ctx = \<lparr>user_id = 2002, user_roles = Some [''Member'', ''Builder'']\<rparr>"

text \<open>The same user invoking a command in a direct message with the bot.\<close>

definition dm_ctx :: interaction where
  "dm_ctx = \<lparr>user_id = 2002, user_roles = None\<rparr>"

text \<open>
  Two friendly names on one channel. The only voice channel of the category is named for
  \<open>smp2\<close>; the name also contains \<open>smp\<close>, so \<^verbatim>\<open>ensure_channels_for_guild\<close> binds both names
  to it. Both servers run during the first cycle; from the second cycle on, server 10 is
  starting. A successful edit changes the name the channel is seen with.
\<close>

definition polling_cfg :: config where
  "polling_cfg = example_cfg\<lparr>cfg_servers := [(''smp'', ''10''), (''smp2'', ''11'')]\<rparr>"

definition example_call :: "string \<Rightarrow> http_call" where
  "example_call path =
     \<lparr>call_method = ''GET'', call_url = ''http://crafty'' @ path,
      call_headers = Some [(''Authorization'', Bearer (JStr ''static''))],
      call_args = [], call_verify = True\<rparr>"

definition empty_list_body :: http_result where
  "empty_list_body = Response 200 [] (Some (JObj [(''data'', JArr [])]))"

definition running_body :: http_result where
  "running_body = Response 200 [] (Some (JObj [(''data'', JObj [(''running'', JBool True)])]))"

definition starting_body :: http_result where
  "starting_body = Response 200 [] (Some (JObj [(''data'',
       JObj [(''running'', JBool False), (''waiting_start'', JBool True)])]))"

text \<open>The name a channel has after the edits of a trace, \<open>name\<close> being the one before.\<close>

fun channel_name :: "nat \<Rightarrow> string \<Rightarrow> event list \<Rightarrow> string" where
  "channel_name ch name [] = name"
| "channel_name ch name (Edit ch' new t ok # es) =
     channel_name ch (if ch' = ch \<and> ok then new else name) es"
| "channel_name ch name (ev # es) = channel_name ch name es"

definition shared_env :: env where
  "shared_env = no_discord
     \<lparr>respond := (\<lambda>h call.
          if call_url call = ''http://crafty/api/v2/servers/10/stats''
          then (if length h < 8 then running_body else starting_body)
          else if call_url call = ''http://crafty/api/v2/servers/11/stats'' then running_body
          else empty_list_body),
      clock := (\<lambda>h. if length h \<le> 3 then 100 else if length h \<le> 6 then 101
                     else if length h \<le> 11 then 114 else 116),
      bot_guilds := (\<lambda>h. [1]),
      get_channel := (\<lambda>h g ch. if g = 1 \<and> ch = 7
                                  then Some (channel_name 7 (green_circle @ '' Smp2: Online'') h)
                                  else None),
      find_category := (\<lambda>h g name. if g = 1 then Some 5 else None),
      voice_channels := (\<lambda>h cat. if cat = 5
                                  then [(7, channel_name 7 (green_circle @ '' Smp2: Online'') h)]
                                  else [])\<rparr>"

definition shared_state :: state where
  "shared_state = (init_state polling_cfg)
     \<lparr>token := Some (JStr ''static''),
      channel_map := [(1, [(''smp'', 7), (''smp2'', 7)])]\<rparr>"

text \<open>The effects of the first and of the second poll cycle in that world.\<close>

definition first_cycle :: "event list" where
  "first_cycle =
     [Http (example_call ''/api/v2/servers'') empty_list_body,
      Log Info (ServerMapLogged [(''smp'', ''10''), (''smp2'', ''11'')]),
      Http (example_call ''/api/v2/servers/10/stats'') running_body,
      Clock 100,
      Edit 7 (green_circle @ '' Smp: Online'') 100 True,
      Http (example_call ''/api/v2/servers/11/stats'') running_body,
      Clock 101,
      Log Info (SkippingCooldown (green_circle @ '' Smp: Online''))]"

definition second_cycle :: "event list" where
  "second_cycle =
     [Http (example_call ''/api/v2/servers'') empty_list_body,
      Log Info (ServerMapLogged [(''smp'', ''10''), (''smp2'', ''11'')]),
      Http (example_call ''/api/v2/servers/10/stats'') starting_body,
      Clock 114,
      Log Info (SkippingCooldown (green_circle @ '' Smp: Online'')),
      Http (example_call ''/api/v2/servers/11/stats'') running_body,
      Clock 116,
      Edit 7 (green_circle @ '' Smp2: Online'') 116 True]"

definition after_first_cycle :: state where
  "after_first_cycle = shared_state
     \<lparr>trace := first_cycle,
      server_map := [(''smp'', ''10''), (''smp2'', ''11'')],
      channel_last_update := [(7, 100)]\<rparr>"

definition after_second_cycle :: state where
  "after_second_cycle = shared_state
     \<lparr>trace := first_cycle @ second_cycle,
      server_map := [(''smp'', ''10''), (''smp2'', ''11'')],
      channel_last_update := [(7, 116)]\<rparr>"

text \<open>
  One binding, as in the specification's example: the channel shows Online and the server
  reports that it is not running.
\<close>

definition survival_env :: env where
  "survival_env = no_discord
     \<lparr>respond := (\<lambda>h call. starting_body),
      clock := (\<lambda>h. 1000),
      get_channel := (\<lambda>h g ch. Some (green_circle @ '' Survival: Online''))\<rparr>"

definition survival_state :: state where
  "survival_state = (init_state example_cfg)
     \<lparr>token := Some (JStr ''static''), server_map := [(''survival'', ''42'')],
      channel_map := [(1, [(''survival'', 7)])]\<rparr>"

section \<open>Properties\<close>

subsection \<open>Basic facts\<close>

lemma emit_simps [simp]:
  "trace (emit es s) = trace s @ es" "token (emit es s) = token s"
  "server_map (emit es s) = server_map s" "channel_map (emit es s) = channel_map s"
  "channel_last_update (emit es s) = channel_last_update s" "cfg (emit es s) = cfg s"
  "SERVERS_CFG (emit es s) = SERVERS_CFG s" "CATEGORY_NAME (emit es s) = CATEGORY_NAME s"
  "update_interval (emit es s) = update_interval s"
  by (simp_all add: emit_def)

lemma emit_emit [simp]: "emit es (emit ds s) = emit (ds @ es) s"
  by (simp add: emit_def)

lemma emit_Nil [simp]: "emit [] s = s"
  by (simp add: emit_def)

lemma login_userpass_Inl:
  assumes "\<not> has_bearer c" and "login en c s = (Inl e, s')"
  shows "s' = emit [Http (login_call c) (respond en (trace s) (login_call c))] s"
  using assms
  by (auto simp: login_def Let_def split: http_result.splits if_splits option.splits sum.splits)

lemma login_userpass_Inr:
  assumes "\<not> has_bearer c" and "login en c s = (Inr tok, s')"
  shows "s' = emit [Http (login_call c) (respond en (trace s) (login_call c)), Log Info LoggedIn]
                (s\<lparr>token := Some tok\<rparr>) \<and> truthy tok"
  using assms
  by (auto simp: login_def Let_def emit_def split: http_result.splits if_splits option.splits sum.splits)

lemma request_no_retry:
  assumes "\<not> retry \<or> has_bearer c \<or> (\<forall>text body. respond en (trace s) (request_call c s method path kw) \<noteq> Response 401 text body)"
  shows "request en c s method path retry kw =
           (let call = request_call c s method path kw; r = respond en (trace s) call
            in (final_result r, emit ([Http call r] @ transport_log (final_result r)) s))"
  using assms
  apply (subst request.simps)
  apply (auto simp: Let_def final_result_def split: http_result.splits option.splits)
  done


lemma transport_log_Inr [simp]: "transport_log (Inr j) = []"
  by (simp add: transport_log_def)


lemma has_bearer_user [simp]: "\<not> has_bearer user_client"
  by (simp add: has_bearer_def user_client_def)


lemma init_state_simps [simp]:
  "trace (init_state cf) = []" "token (init_state cf) = None" "cfg (init_state cf) = cf"
  "SERVERS_CFG (init_state cf) = cfg_servers cf" "server_map (init_state cf) = []"
  "channel_map (init_state cf) = []" "channel_last_update (init_state cf) = []"
  "CATEGORY_NAME (init_state cf) = cfg_category_name cf"
  by (simp_all add: init_state_def)

lemma respond_relogin:
  "respond relogin_env h call =
     (if call = login_call user_client
       then Response 200 [] (Some (JObj [(''data'', JObj [(''token'', JStr ''t2'')])]))
       else if h = [] then Response 401 ''expired'' None
       else ok_servers)"
  by (simp add: relogin_env_def no_discord_def)

lemma respond_login_down:
  "respond login_down_env h call =
     (if call = login_call user_client then Response 500 ''down'' None
       else Response 401 ''expired'' None)"
  by (simp add: login_down_env_def no_discord_def)

lemma request_call_not_login [simp]: "request_call c s method path kw \<noteq> login_call c'"
  by (simp add: request_call_def login_call_def)

subsection \<open>Re-login on 401\<close>

text \<open>
  C1, as amended. The client has username/password credentials (no static token) and the
  first answer to a request is HTTP 401. Then \<^verbatim>\<open>login\<close> is called exactly once.
  If it raises, its error leaves \<^verbatim>\<open>_request\<close> and nothing more is sent: the effects are the
  request and the one login call. If it returns \<open>tok\<close>, the request is sent exactly once
  more, with the same method, URL and remaining keyword arguments and with the new token
  as its only header; nothing else is sent, so there is no second login. What that retry
  meets decides the result: a status \<open>\<ge> 400\<close> (a second 401 too) is the error
  \<open>HttpError status text\<close>, a lower status returns the decoded body.
\<close>

theorem request_relogin_once:
  assumes "\<not> has_bearer c"
    and "respond en (trace s) (request_call c s method path kw) = Response 401 text body"
  shows "case login en c (emit [Http (request_call c s method path kw) (Response 401 text body)] s) of
           (Inl e, s2) \<Rightarrow>
             s2 = emit [Http (request_call c s method path kw) (Response 401 text body),
                        Http (login_call c)
                          (respond en (trace s @ [Http (request_call c s method path kw)
                                                    (Response 401 text body)]) (login_call c))] s
             \<and> request en c s method path True kw = (Inl e, emit (transport_log (Inl e)) s2)
         | (Inr tok, s2) \<Rightarrow>
             (let again = \<lparr>call_method = method, call_url = base c @ path,
                           call_headers = Some [(''Authorization'', Bearer tok)],
                           call_args = kw_rest kw, call_verify = verify_ssl c\<rparr>;
                  r2 = respond en (trace s2) again;
                  out = request en c s method path True kw
              in s2 = emit [Http (request_call c s method path kw) (Response 401 text body),
                            Http (login_call c)
                              (respond en (trace s @ [Http (request_call c s method path kw)
                                                        (Response 401 text body)]) (login_call c)),
                            Log Info LoggedIn] (s\<lparr>token := Some tok\<rparr>)
                 \<and> snd out = emit ([Http again r2] @ transport_log (fst out) @ transport_log (fst out)) s2
                 \<and> fst out =
                     (case r2 of
                        ConnectionFailed \<Rightarrow> Inl ClientConnectionError
                      | TimedOut \<Rightarrow> Inl TimeoutError
                      | Response st tx bd \<Rightarrow>
                          if st \<ge> 400 then Inl (HttpError st tx)
                          else (case bd of None \<Rightarrow> Inl ContentTypeError | Some js \<Rightarrow> Inr js)))"
proof (cases "login en c (emit [Http (request_call c s method path kw) (Response 401 text body)] s)")
  case (Pair res s2)
  let ?s1 = "emit [Http (request_call c s method path kw) (Response 401 text body)] s"
  show ?thesis
  proof (cases res)
    case (Inl e)
    with Pair have lg: "login en c ?s1 = (Inl e, s2)" by simp
    from login_userpass_Inl [OF assms(1) lg]
    have s2: "s2 = emit [Http (login_call c) (respond en (trace ?s1) (login_call c))] ?s1" .
    have "request en c s method path True kw = (Inl e, emit (transport_log (Inl e)) s2)"
      by (subst request.simps) (simp add: assms lg Let_def)
    with s2 lg show ?thesis by simp
  next
    case (Inr tok)
    with Pair have lg: "login en c ?s1 = (Inr tok, s2)" by simp
    from login_userpass_Inr [OF assms(1) lg]
    have s2: "s2 = emit [Http (login_call c) (respond en (trace ?s1) (login_call c)), Log Info LoggedIn]
                     (?s1\<lparr>token := Some tok\<rparr>)" and tok: "truthy tok" by simp_all
    have tk: "token s2 = Some tok" by (simp add: s2)
    have call2: "request_call c s2 method path (kw\<lparr>kw_headers := None\<rparr>) =
                 \<lparr>call_method = method, call_url = base c @ path,
                  call_headers = Some [(''Authorization'', Bearer tok)],
                  call_args = kw_rest kw, call_verify = verify_ssl c\<rparr>"
      by (simp add: request_call_def request_headers_def tk tok)
    have outer: "request en c s method path True kw =
                 (let out = request en c s2 method path False (kw\<lparr>kw_headers := None\<rparr>)
                  in (fst out, emit (transport_log (fst out)) (snd out)))"
      by (subst request.simps) (simp add: assms lg Let_def)
    have inner: "request en c s2 method path False (kw\<lparr>kw_headers := None\<rparr>) =
                 (let call = request_call c s2 method path (kw\<lparr>kw_headers := None\<rparr>);
                      r = respond en (trace s2) call
                  in (final_result r, emit ([Http call r] @ transport_log (final_result r)) s2))"
      by (rule request_no_retry) simp
    let ?again = "\<lparr>call_method = method, call_url = base c @ path,
                   call_headers = Some [(''Authorization'', Bearer tok)],
                   call_args = kw_rest kw, call_verify = verify_ssl c\<rparr>"
    let ?r2 = "respond en (trace s2) ?again"
    have res: "request en c s method path True kw =
               (final_result ?r2,
                emit ([Http ?again ?r2] @ transport_log (final_result ?r2)
                        @ transport_log (final_result ?r2)) s2)"
      by (simp add: outer inner call2 Let_def)
    have A: "s2 = emit [Http (request_call c s method path kw) (Response 401 text body),
                        Http (login_call c)
                          (respond en (trace s @ [Http (request_call c s method path kw)
                                                    (Response 401 text body)]) (login_call c)),
                        Log Info LoggedIn] (s\<lparr>token := Some tok\<rparr>)"
      using s2 by (simp add: emit_def)
    have B: "final_result ?r2 =
               (case ?r2 of
                  ConnectionFailed \<Rightarrow> Inl ClientConnectionError
                | TimedOut \<Rightarrow> Inl TimeoutError
                | Response st tx bd \<Rightarrow>
                    if st \<ge> 400 then Inl (HttpError st tx)
                    else (case bd of None \<Rightarrow> Inl ContentTypeError | Some js \<Rightarrow> Inr js))"
      by (simp add: final_result_def)
    show ?thesis
      unfolding lg prod.case sum.case Let_def res fst_conv snd_conv
      using A B by blast
  qed
qed

text \<open>The theorem at work: 401, a login that yields \<open>t2\<close>, and a retry that succeeds.\<close>

theorem request_relogin_once_witness:
  "\<not> has_bearer user_client
   \<and> respond relogin_env (trace (init_state example_cfg))
         (request_call user_client (init_state example_cfg) ''GET'' ''/api/v2/servers'' no_kwargs)
       = Response 401 ''expired'' None
   \<and> fst (request relogin_env user_client (init_state example_cfg) ''GET'' ''/api/v2/servers'' True no_kwargs)
       = Inr (JObj [(''data'', JArr [JObj [(''server_name'', JStr ''SMP''), (''server_id'', JStr ''42'')]])])"
proof -
  have h1: "\<not> has_bearer user_client" by simp
  have h2: "respond relogin_env (trace (init_state example_cfg))
         (request_call user_client (init_state example_cfg) ''GET'' ''/api/v2/servers'' no_kwargs)
       = Response 401 ''expired'' None"
    by (simp add: respond_relogin)
  have lg: "login relogin_env user_client s =
     (Inr (JStr ''t2''), emit [Http (login_call user_client)
         (Response 200 [] (Some (JObj [(''data'', JObj [(''token'', JStr ''t2'')])]))), Log Info LoggedIn]
         (s\<lparr>token := Some (JStr ''t2'')\<rparr>))" for s
    by (simp add: login_def respond_relogin extract_token_def Let_def emit_def)
  show ?thesis
    using h1 h2 request_relogin_once [OF h1 h2]
    by (simp add: lg Let_def respond_relogin ok_servers_def login_call_def)
qed

text \<open>
  C1 as stated fails: here the first answer is 401 and the one re-login is refused with
  status 500. The request is never sent again, and the error is the login's.
\<close>

theorem request_relogin_failed_no_retry:
  "\<not> has_bearer user_client
   \<and> respond login_down_env [] (request_call user_client (init_state example_cfg) ''GET'' ''/api/v2/servers'' no_kwargs)
       = Response 401 ''expired'' None
   \<and> request login_down_env user_client (init_state example_cfg) ''GET'' ''/api/v2/servers'' True no_kwargs
       = (Inl (LoginFailed 500 ''down''),
          (init_state example_cfg)\<lparr>trace :=
             [Http (request_call user_client (init_state example_cfg) ''GET'' ''/api/v2/servers'' no_kwargs)
                   (Response 401 ''expired'' None),
              Http (login_call user_client) (Response 500 ''down'' None)]\<rparr>)"
proof -
  have lg: "login login_down_env user_client s =
     (Inl (LoginFailed 500 ''down''), emit [Http (login_call user_client) (Response 500 ''down'' None)] s)" for s
    by (simp add: login_def respond_login_down Let_def)
  have "request login_down_env user_client (init_state example_cfg) ''GET'' ''/api/v2/servers'' True no_kwargs
       = (Inl (LoginFailed 500 ''down''),
          emit [Http (request_call user_client (init_state example_cfg) ''GET'' ''/api/v2/servers'' no_kwargs)
                   (Response 401 ''expired'' None),
              Http (login_call user_client) (Response 500 ''down'' None)] (init_state example_cfg))"
    by (subst request.simps) (simp add: Let_def lg respond_login_down transport_log_def)
  then show ?thesis by (simp add: emit_def respond_login_down)
qed

subsection \<open>Static bearer token\<close>

text \<open>
  C4. A static bearer token is configured (\<^verbatim>\<open>bearer_token\<close> is set and not empty). Then, in
  every state and whatever the server would answer, \<^verbatim>\<open>login\<close> returns that token and stores
  it; its only effect is a log line, so no network call is made. And every request,
  whatever \<open>retry\<close> is and whatever is answered, is exactly one call: its result is read
  off that one answer, and the only further effects are the warnings of \<^verbatim>\<open>_request\<close> for a
  transport error, so \<^verbatim>\<open>login\<close> is not entered. In particular an answer 401 is raised as
  \<open>HttpError 401\<close> after the single call.
\<close>

theorem static_token_no_login:
  assumes "bearer_token c = Some t" and "t \<noteq> []"
  shows "login en c s = (Inr (JStr t), emit [Log Info UsingStaticToken] (s\<lparr>token := Some (JStr t)\<rparr>))
         \<and> request en c s method path retry kw =
             (final_result (respond en (trace s) (request_call c s method path kw)),
              emit ([Http (request_call c s method path kw)
                          (respond en (trace s) (request_call c s method path kw))]
                    @ transport_log
                        (final_result (respond en (trace s) (request_call c s method path kw)))) s)
         \<and> (\<forall>tx bd. respond en (trace s) (request_call c s method path kw) = Response 401 tx bd
                \<longrightarrow> request en c s method path retry kw =
                      (Inl (HttpError 401 tx),
                       emit [Http (request_call c s method path kw) (Response 401 tx bd)] s))"
proof -
  have hb: "has_bearer c" using assms(1,2) by (simp add: has_bearer_def)
  have lg: "login en c s
              = (Inr (JStr t), emit [Log Info UsingStaticToken] (s\<lparr>token := Some (JStr t)\<rparr>))"
    using hb assms(1) by (simp add: login_def opt_str_def)
  have rq: "request en c s method path retry kw =
             (final_result (respond en (trace s) (request_call c s method path kw)),
              emit ([Http (request_call c s method path kw)
                          (respond en (trace s) (request_call c s method path kw))]
                    @ transport_log
                        (final_result (respond en (trace s) (request_call c s method path kw)))) s)"
    using hb by (simp add: request_no_retry Let_def)
  have "request en c s method path retry kw =
          (Inl (HttpError 401 tx),
           emit [Http (request_call c s method path kw) (Response 401 tx bd)] s)"
    if "respond en (trace s) (request_call c s method path kw) = Response 401 tx bd" for tx bd
    using that by (simp add: rq final_result_def transport_log_def)
  with lg rq show ?thesis by blast
qed

text \<open>
  The theorem at the client with the token \<open>static\<close>: \<^verbatim>\<open>login\<close> where the server is healthy
  and where it answers 401 to everything, and a request in each of the two.
\<close>

theorem static_token_no_login_witness:
  "bearer_token token_client = Some ''static'' \<and> ''static'' \<noteq> []
   \<and> login (servers_env ok_servers) token_client (init_state example_cfg)
       = (Inr (JStr ''static''),
          (init_state example_cfg)\<lparr>token := Some (JStr ''static''),
                                      trace := [Log Info UsingStaticToken]\<rparr>)
   \<and> login always_401_env token_client (init_state example_cfg)
       = (Inr (JStr ''static''),
          (init_state example_cfg)\<lparr>token := Some (JStr ''static''),
                                      trace := [Log Info UsingStaticToken]\<rparr>)
   \<and> request (servers_env ok_servers) token_client (init_state example_cfg)
         ''GET'' ''/api/v2/servers'' True no_kwargs
       = (final_result ok_servers,
          (init_state example_cfg)\<lparr>trace :=
             [Http (request_call token_client (init_state example_cfg)
                      ''GET'' ''/api/v2/servers'' no_kwargs) ok_servers]\<rparr>)
   \<and> respond always_401_env (trace (init_state example_cfg))
        (request_call token_client (init_state example_cfg) ''GET'' ''/api/v2/servers'' no_kwargs)
      = Response 401 ''denied'' None
   \<and> request always_401_env token_client (init_state example_cfg)
         ''GET'' ''/api/v2/servers'' True no_kwargs
       = (Inl (HttpError 401 ''denied''),
          (init_state example_cfg)\<lparr>trace :=
             [Http (request_call token_client (init_state example_cfg)
                      ''GET'' ''/api/v2/servers'' no_kwargs) (Response 401 ''denied'' None)]\<rparr>)"
proof -
  have h1: "bearer_token token_client = Some ''static''" by (simp add: token_client_def)
  have h2: "''static'' \<noteq> []" by simp
  have h3: "respond always_401_env tr call = Response 401 ''denied'' None" for tr call
    by (simp add: always_401_env_def no_discord_def)
  have h4: "respond (servers_env ok_servers) tr call = ok_servers" for tr call
    by (simp add: servers_env_def)
  have ok: "transport_log (final_result ok_servers) = []"
    by (simp add: ok_servers_def final_result_def transport_log_def)
  note A = static_token_no_login [OF h1 h2, where en = "servers_env ok_servers"
             and s = "init_state example_cfg" and path = "''/api/v2/servers''"
             and retry = True and kw = no_kwargs]
  note B = static_token_no_login [OF h1 h2, where en = always_401_env
             and s = "init_state example_cfg" and path = "''/api/v2/servers''"
             and retry = True and kw = no_kwargs]
  have l1: "login (servers_env ok_servers) token_client (init_state example_cfg)
       = (Inr (JStr ''static''),
          (init_state example_cfg)\<lparr>token := Some (JStr ''static''),
                                      trace := [Log Info UsingStaticToken]\<rparr>)"
    using A [THEN conjunct1] by (simp add: emit_def)
  have l2: "login always_401_env token_client (init_state example_cfg)
       = (Inr (JStr ''static''),
          (init_state example_cfg)\<lparr>token := Some (JStr ''static''),
                                      trace := [Log Info UsingStaticToken]\<rparr>)"
    using B [THEN conjunct1] by (simp add: emit_def)
  have r1: "request (servers_env ok_servers) token_client (init_state example_cfg)
         ''GET'' ''/api/v2/servers'' True no_kwargs
       = (final_result ok_servers,
          (init_state example_cfg)\<lparr>trace :=
             [Http (request_call token_client (init_state example_cfg)
                      ''GET'' ''/api/v2/servers'' no_kwargs) ok_servers]\<rparr>)"
    by (simp add: A [THEN conjunct2, THEN conjunct1] h4 ok emit_def)
  have r2: "request always_401_env token_client (init_state example_cfg)
         ''GET'' ''/api/v2/servers'' True no_kwargs
       = (Inl (HttpError 401 ''denied''),
          (init_state example_cfg)\<lparr>trace :=
             [Http (request_call token_client (init_state example_cfg)
                      ''GET'' ''/api/v2/servers'' no_kwargs) (Response 401 ''denied'' None)]\<rparr>)"
    by (simp add: B [THEN conjunct2, THEN conjunct2, rule_format, OF h3] emit_def)
  from h1 h2 l1 l2 r1 r2 h3 show ?thesis by blast
qed

subsection \<open>Token extraction in login\<close>

text \<open>
  What the expression yields on a decoded object: the nested token, the top-level token
  when there is no \<^verbatim>\<open>data\<close>, nothing when there is neither, and AttributeError whenever
  \<^verbatim>\<open>data\<close> is there and is not an object.
\<close>

lemma extract_token_nested:
  "map_of kvs ''data'' = Some (JObj d) \<Longrightarrow> map_of d ''token'' = Some t \<Longrightarrow> truthy t \<Longrightarrow>
   extract_token (JObj kvs) = Inr t"
  by (simp add: extract_token_def)

lemma extract_token_top_level:
  "map_of kvs ''data'' = None \<Longrightarrow> map_of kvs ''token'' = Some t \<Longrightarrow> truthy t \<Longrightarrow>
   extract_token (JObj kvs) = Inr t"
  by (simp add: extract_token_def)

lemma extract_token_absent:
  "map_of kvs ''data'' = None \<Longrightarrow> map_of kvs ''token'' = None \<Longrightarrow>
   extract_token (JObj kvs) = Inr JNull"
  by (simp add: extract_token_def)

lemma extract_token_data_not_dict:
  "map_of kvs ''data'' = Some v \<Longrightarrow> \<forall>d. v \<noteq> JObj d \<Longrightarrow>
   extract_token (JObj kvs) = Inl AttributeError"
  by (cases v) (simp_all add: extract_token_def)

lemma login_status_error:
  "\<not> has_bearer c \<Longrightarrow> respond en (trace s) (login_call c) = Response st tx bd \<Longrightarrow> 400 \<le> st \<Longrightarrow>
   fst (login en c s) = Inl (LoginFailed st tx)"
  by (simp add: login_def)

text \<open>
  C8 at a login answer whose token is the top-level \<^verbatim>\<open>data\<close> field, \<^verbatim>\<open>{"data": "abc"}\<close>
  with status 200: the claim has \<open>abc\<close> stored and returned, as the third alternative
  \<^verbatim>\<open>js.get("data")\<close> intends. The first alternative, \<^verbatim>\<open>js.get("data", {}).get("token")\<close>,
  calls \<^verbatim>\<open>.get\<close> on the string and raises AttributeError before the third is reached.
\<close>

theorem login_data_string_raises:
  "login data_is_token_env user_client (init_state example_cfg) =
     (Inl AttributeError,
      (init_state example_cfg)\<lparr>trace :=
         [Http (login_call user_client) (Response 200 [] (Some (JObj [(''data'', JStr ''abc'')])))]\<rparr>)"
  by (simp add: login_def data_is_token_env_def no_discord_def extract_token_def Let_def emit_def)

subsection \<open>Server map\<close>

lemma only_client_stateI:
  "filter is_edit es = [] \<Longrightarrow> only_client_state s ((emit es s)\<lparr>token := tk\<rparr>)"
  by (simp add: only_client_state_def emit_def)

lemma only_client_stateE:
  assumes "only_client_state s s'"
  obtains es tk where "s' = (emit es s)\<lparr>token := tk\<rparr>" and "filter is_edit es = []"
proof
  let ?es = "drop (length (trace s)) (trace s')"
  from assms have eq: "s' = s\<lparr>trace := trace s', token := token s'\<rparr>"
    and tk: "take (length (trace s)) (trace s') = trace s"
    and ne: "filter is_edit ?es = []"
    by (simp_all add: only_client_state_def)
  have "trace s @ ?es = trace s'"
    using append_take_drop_id [of "length (trace s)" "trace s'"] tk by simp
  then show "s' = (emit ?es s)\<lparr>token := token s'\<rparr>"
    using eq by (simp add: emit_def)
  show "filter is_edit ?es = []" by (rule ne)
qed

lemma only_client_state_refl [simp]: "only_client_state s s"
  by (simp add: only_client_state_def)

lemma only_client_state_emit [simp]:
  "filter is_edit es = [] \<Longrightarrow> only_client_state s (emit es s)"
  by (simp add: only_client_state_def emit_def)

lemma only_client_state_trans:
  assumes "only_client_state s s1" and "only_client_state s1 s2"
  shows "only_client_state s s2"
proof -
  from assms(1) obtain es tk where s1: "s1 = (emit es s)\<lparr>token := tk\<rparr>" and e1: "filter is_edit es = []"
    by (rule only_client_stateE)
  from assms(2) obtain ds tk' where s2: "s2 = (emit ds s1)\<lparr>token := tk'\<rparr>" and e2: "filter is_edit ds = []"
    by (rule only_client_stateE)
  have "s2 = (emit (es @ ds) s)\<lparr>token := tk'\<rparr>"
    by (simp add: s1 s2 emit_def)
  moreover have "filter is_edit (es @ ds) = []" using e1 e2 by simp
  ultimately show ?thesis by (simp add: only_client_stateI)
qed

lemma only_client_state_fields:
  assumes "only_client_state s s'"
  shows "server_map s' = server_map s" "channel_map s' = channel_map s"
    "channel_last_update s' = channel_last_update s" "cfg s' = cfg s"
    "SERVERS_CFG s' = SERVERS_CFG s" "CATEGORY_NAME s' = CATEGORY_NAME s"
    "update_interval s' = update_interval s"
  using assms by (cases s; cases s'; simp add: only_client_state_def)+

lemma is_edit_transport_log [simp]: "filter is_edit (transport_log r) = []"
  by (auto simp: transport_log_def split: sum.splits error.splits)

lemma login_only_client_state: "only_client_state s (snd (login en c s))"
  by (auto simp: login_def Let_def only_client_state_def emit_def
           split: http_result.splits option.splits sum.splits)

lemma request_only_client_state: "only_client_state s (snd (request en c s method path retry kw))"
proof (cases "retry \<and> \<not> has_bearer c \<and>
              (\<exists>text body. respond en (trace s) (request_call c s method path kw) = Response 401 text body)")
  case False
  then show ?thesis by (simp add: request_no_retry Let_def)
next
  case True
  then obtain tx bd where r: "respond en (trace s) (request_call c s method path kw) = Response 401 tx bd"
    and rt: "retry" and nb: "\<not> has_bearer c" by blast
  let ?s1 = "emit [Http (request_call c s method path kw) (Response 401 tx bd)] s"
  have l: "only_client_state ?s1 (snd (login en c ?s1))" by (rule login_only_client_state)
  have s1: "only_client_state s ?s1" by simp
  show ?thesis
  proof (cases "login en c ?s1")
    case (Pair res s2)
    with l have "only_client_state ?s1 s2" by simp
    with s1 have s2: "only_client_state s s2" by (rule only_client_state_trans)
    show ?thesis
    proof (cases res)
      case (Inl e)
      with Pair have "request en c s method path retry kw = (Inl e, emit (transport_log (Inl e)) s2)"
        by (subst request.simps) (simp add: r rt nb Let_def)
      then have "snd (request en c s method path retry kw) = emit (transport_log (Inl e)) s2"
        by simp
      then show ?thesis
        using only_client_state_trans [OF s2 only_client_state_emit] by simp
    next
      case (Inr tok)
      have inner: "only_client_state s2 (snd (request en c s2 method path False (kw\<lparr>kw_headers := None\<rparr>)))"
        by (simp add: request_no_retry Let_def)
      from Inr Pair have "snd (request en c s method path retry kw) =
          emit (transport_log (fst (request en c s2 method path False (kw\<lparr>kw_headers := None\<rparr>))))
            (snd (request en c s2 method path False (kw\<lparr>kw_headers := None\<rparr>)))"
        by (subst request.simps) (simp add: r rt nb Let_def)
      then show ?thesis
        using only_client_state_trans [OF only_client_state_trans [OF s2 inner] only_client_state_emit]
        by simp
    qed
  qed
qed

lemma get_servers_only_client_state: "only_client_state s (snd (get_servers en c s))"
proof (cases "request en c s ''GET'' ''/api/v2/servers'' True no_kwargs")
  case (Pair res s1)
  then have "snd (get_servers en c s) = s1"
    by (cases res) (simp_all add: get_servers_def)
  with Pair request_only_client_state [of s en c "''GET''" "''/api/v2/servers''" True no_kwargs]
  show ?thesis by simp
qed

lemma map_of_new_map:
  "distinct (map fst conf) \<Longrightarrow>
   map_of (new_map idx conf acc) k =
     (case map_of conf k of Some cn \<Rightarrow> Some (resolve idx cn) | None \<Rightarrow> map_of acc k)"
proof (induction conf arbitrary: acc)
  case Nil
  then show ?case by simp
next
  case (Cons p conf)
  obtain f cn where p: "p = (f, cn)" by (cases p)
  from Cons.prems p have nf: "map_of conf f = None" and d: "distinct (map fst conf)"
    by (auto simp: map_of_eq_None_iff)
  show ?case
    using Cons.IH [OF d, of "AList.update f (resolve idx cn) acc"] nf
    by (simp add: p update_conv' split: option.splits)
qed

lemma keys_new_map: "fst ` set (new_map idx conf acc) = fst ` set conf \<union> fst ` set acc"
proof (induction conf arbitrary: acc)
  case Nil
  then show ?case by simp
next
  case (Cons p conf)
  obtain f cn where p: "p = (f, cn)" by (cases p)
  have "fst ` set (new_map idx (p # conf) acc) = fst ` set conf \<union> ({f} \<union> fst ` set acc)"
    using Cons.IH [of "AList.update f (resolve idx cn) acc"] by (simp add: p dom_update)
  also have "\<dots> = fst ` set (p # conf) \<union> fst ` set acc"
    unfolding p by simp
  finally show ?case .
qed

lemma id_by_name_append:
  "id_by_name en (xs @ ys) acc =
     (case id_by_name en xs acc of Inl e \<Rightarrow> Inl e | Inr a \<Rightarrow> id_by_name en ys a)"
  by (induction xs arbitrary: acc) (auto split: sum.splits)

lemma id_by_name_no_match:
  "id_by_name en svs acc = Inr idx \<Longrightarrow>
   \<forall>sv \<in> set svs. py_subscript sv ''server_name'' \<noteq> Inr (JStr n) \<Longrightarrow>
   map_of idx (JStr n) = map_of acc (JStr n)"
proof (induction svs arbitrary: acc)
  case Nil
  then show ?case by simp
next
  case (Cons sv svs)
  from Cons.prems(1) obtain name sid where
    nm: "py_subscript sv ''server_name'' = Inr name" and
    rest: "id_by_name en svs (AList.update name (py_str en sid) acc) = Inr idx"
    by (auto split: sum.splits if_splits)
  from Cons.prems(2) nm have ne: "name \<noteq> JStr n" by auto
  from Cons.IH [OF rest] Cons.prems(2)
  have "map_of idx (JStr n) = map_of (AList.update name (py_str en sid) acc) (JStr n)" by simp
  with ne show ?case by (simp add: update_conv')
qed

lemma id_by_name_last_match:
  assumes "id_by_name en (before @ sv # after) acc = Inr idx"
    and "py_subscript sv ''server_name'' = Inr (JStr n)"
    and "py_subscript sv ''server_id'' = Inr sid"
    and "\<forall>x \<in> set after. py_subscript x ''server_name'' \<noteq> Inr (JStr n)"
  shows "map_of idx (JStr n) = Some (py_str en sid)"
proof -
  from assms(1) obtain a where
    "id_by_name en (sv # after) a = Inr idx"
    by (auto simp: id_by_name_append split: sum.splits)
  with assms(2,3) have "id_by_name en after (AList.update (JStr n) (py_str en sid) a) = Inr idx"
    by simp
  from id_by_name_no_match [OF this assms(4)] show ?thesis
    by (simp add: update_conv')
qed

lemma refresh_success:
  assumes "refresh_server_map en c s = (Inr u, s')"
  shows "\<exists>servers s1 svs idx. get_servers en c s = (Inr servers, s1) \<and> py_iter servers = Inr svs
           \<and> id_by_name en svs [] = Inr idx
           \<and> s' = emit [Log Info (ServerMapLogged (new_map idx (SERVERS_CFG s) []))]
                     (s1\<lparr>server_map := new_map idx (SERVERS_CFG s) []\<rparr>)"
proof (cases "get_servers en c s")
  case (Pair res s1)
  from get_servers_only_client_state [of s en c] Pair
  have "SERVERS_CFG s1 = SERVERS_CFG s" by (simp add: only_client_state_fields)
  with assms Pair show ?thesis
    by (auto simp: refresh_server_map_def Let_def split: sum.splits)
qed

lemma respond_servers_env [simp]: "respond (servers_env r) h call = r"
  by (simp add: servers_env_def no_discord_def)

lemma servers_cfg_example [simp]:
  "cfg_servers example_cfg = [(''survival'', ''SMP''), (''creative'', ''7f3a'')]"
  by (simp add: example_cfg_def)

lemma get_servers_ok:
  "get_servers (servers_env ok_servers) c s =
     (Inr (JArr [JObj [(''server_name'', JStr ''SMP''), (''server_id'', JStr ''42'')]]),
      emit [Http (request_call c s ''GET'' ''/api/v2/servers'' no_kwargs) ok_servers] s)"
  by (simp add: get_servers_def request_no_retry Let_def final_result_def ok_servers_def)

lemma refresh_ok:
  "refresh_server_map (servers_env ok_servers) c (init_state example_cfg) =
     (Inr (), snd (refresh_server_map (servers_env ok_servers) c (init_state example_cfg)))"
  by (simp add: refresh_server_map_def get_servers_ok Let_def)

text \<open>
  C5. When the fetch of the server list (\<^verbatim>\<open>get_servers\<close>) raises, \<^verbatim>\<open>refresh_server_map\<close>
  raises the same error, in the state the fetch left, and \<^verbatim>\<open>server_map\<close> is what it was
  before. The same holds for every other way \<^verbatim>\<open>refresh_server_map\<close> can raise (a list that
  cannot be iterated, an entry without name or identifier): the state is the one the
  fetch left and the map is the old one. When it returns, the fetch had returned a list,
  the map was still the old one when the fetch ended, and it is then replaced in one
  assignment by the map built from that list and the configuration alone: its keys are
  exactly the configured friendly names, each (the names being distinct) bound to the
  resolution of its configured remote name, so no entry of the old map survives and none
  of the new one is missing.
\<close>

theorem refresh_replaces_wholesale:
  "(\<forall>e s1. get_servers en c s = (Inl e, s1)
        \<longrightarrow> refresh_server_map en c s = (Inl e, s1) \<and> server_map s1 = server_map s)
   \<and> (\<forall>e s'. refresh_server_map en c s = (Inl e, s')
        \<longrightarrow> s' = snd (get_servers en c s) \<and> server_map s' = server_map s)
   \<and> (\<forall>u s'. refresh_server_map en c s = (Inr u, s')
        \<longrightarrow> (\<exists>servers s1 svs idx.
               get_servers en c s = (Inr servers, s1) \<and> server_map s1 = server_map s
             \<and> py_iter servers = Inr svs \<and> id_by_name en svs [] = Inr idx
             \<and> s' = emit [Log Info (ServerMapLogged (new_map idx (SERVERS_CFG s) []))]
                      (s1\<lparr>server_map := new_map idx (SERVERS_CFG s) []\<rparr>)
             \<and> (distinct (map fst (SERVERS_CFG s))
                  \<longrightarrow> (\<forall>k. map_of (server_map s') k
                             = map_option (resolve idx) (map_of (SERVERS_CFG s) k))))
          \<and> fst ` set (server_map s') = fst ` set (SERVERS_CFG s))"
proof -
  have keep: "server_map (snd (get_servers en c s)) = server_map s"
    using get_servers_only_client_state [of s en c] by (simp add: only_client_state_fields)
  have A: "refresh_server_map en c s = (Inl e, s1) \<and> server_map s1 = server_map s"
    if "get_servers en c s = (Inl e, s1)" for e s1
    using that keep by (simp add: refresh_server_map_def)
  have B: "s' = snd (get_servers en c s) \<and> server_map s' = server_map s"
    if "refresh_server_map en c s = (Inl e, s')" for e s'
  proof -
    from that have "s' = snd (get_servers en c s)"
      by (cases "get_servers en c s")
         (auto simp: refresh_server_map_def Let_def split: sum.splits)
    with keep show ?thesis by simp
  qed
  have C: "(\<exists>servers s1 svs idx.
               get_servers en c s = (Inr servers, s1) \<and> server_map s1 = server_map s
             \<and> py_iter servers = Inr svs \<and> id_by_name en svs [] = Inr idx
             \<and> s' = emit [Log Info (ServerMapLogged (new_map idx (SERVERS_CFG s) []))]
                      (s1\<lparr>server_map := new_map idx (SERVERS_CFG s) []\<rparr>)
             \<and> (distinct (map fst (SERVERS_CFG s))
                  \<longrightarrow> (\<forall>k. map_of (server_map s') k
                             = map_option (resolve idx) (map_of (SERVERS_CFG s) k))))
          \<and> fst ` set (server_map s') = fst ` set (SERVERS_CFG s)"
    if "refresh_server_map en c s = (Inr u, s')" for u s'
  proof -
    from refresh_success [OF that] obtain servers s1 svs idx where
      gs: "get_servers en c s = (Inr servers, s1)" and it: "py_iter servers = Inr svs"
      and ix: "id_by_name en svs [] = Inr idx"
      and s': "s' = emit [Log Info (ServerMapLogged (new_map idx (SERVERS_CFG s) []))]
                      (s1\<lparr>server_map := new_map idx (SERVERS_CFG s) []\<rparr>)"
      by blast
    from keep gs have old: "server_map s1 = server_map s" by simp
    have sm: "server_map s' = new_map idx (SERVERS_CFG s) []" by (simp add: s')
    have keys: "fst ` set (server_map s') = fst ` set (SERVERS_CFG s)"
      by (simp add: sm keys_new_map)
    have vals: "map_of (server_map s') k = map_option (resolve idx) (map_of (SERVERS_CFG s) k)"
      if "distinct (map fst (SERVERS_CFG s))" for k
      by (simp add: sm map_of_new_map [OF that] split: option.splits)
    from gs old it ix s' keys vals show ?thesis by blast
  qed
  from A B C show ?thesis by blast
qed

text \<open>
  The theorem at a populated map. With the server list answering 500 the refresh raises
  that error and the map is the old one. With a healthy server the refresh returns and
  the map is the new one: \<open>survival\<close> is now 42, \<open>creative\<close> is there, \<open>legacy\<close> is gone.
\<close>

theorem refresh_replaces_wholesale_witness:
  "server_map populated_state = [(''survival'', ''41''), (''legacy'', ''9'')]
   \<and> fst (get_servers (servers_env (Response 500 ''boom'' None)) user_client populated_state)
       = Inl (HttpError 500 ''boom'')
   \<and> refresh_server_map (servers_env (Response 500 ''boom'' None)) user_client populated_state
       = (Inl (HttpError 500 ''boom''),
          snd (get_servers (servers_env (Response 500 ''boom'' None)) user_client populated_state))
   \<and> server_map (snd (refresh_server_map (servers_env (Response 500 ''boom'' None)) user_client
                        populated_state)) = [(''survival'', ''41''), (''legacy'', ''9'')]
   \<and> fst (refresh_server_map (servers_env ok_servers) user_client populated_state) = Inr ()
   \<and> distinct (map fst (SERVERS_CFG populated_state))
   \<and> map_of (server_map (snd (refresh_server_map (servers_env ok_servers) user_client
                                populated_state))) ''survival'' = Some ''42''
   \<and> map_of (server_map (snd (refresh_server_map (servers_env ok_servers) user_client
                                populated_state))) ''creative'' = Some ''7f3a''
   \<and> map_of (server_map (snd (refresh_server_map (servers_env ok_servers) user_client
                                populated_state))) ''legacy'' = None"
proof -
  let ?down = "servers_env (Response 500 ''boom'' None)" and ?up = "servers_env ok_servers"
  let ?sv = "JObj [(''server_name'', JStr ''SMP''), (''server_id'', JStr ''42'')]"
  have p: "server_map populated_state = [(''survival'', ''41''), (''legacy'', ''9'')]"
    by (simp add: populated_state_def)
  have cf: "SERVERS_CFG populated_state = [(''survival'', ''SMP''), (''creative'', ''7f3a'')]"
    by (simp add: populated_state_def)
  have d: "distinct (map fst (SERVERS_CFG populated_state))" by (simp add: cf)
  have gs: "get_servers ?down user_client populated_state =
     (Inl (HttpError 500 ''boom''), snd (get_servers ?down user_client populated_state))"
    by (simp add: get_servers_def request_no_retry Let_def final_result_def transport_log_def)
  note T = refresh_replaces_wholesale [where en = ?down and c = user_client and s = populated_state]
  from T [THEN conjunct1, rule_format, OF gs]
  have f1: "refresh_server_map ?down user_client populated_state =
     (Inl (HttpError 500 ''boom''), snd (get_servers ?down user_client populated_state))"
    and f2: "server_map (snd (get_servers ?down user_client populated_state))
               = server_map populated_state"
    by simp_all
  have f3: "server_map (snd (refresh_server_map ?down user_client populated_state))
              = [(''survival'', ''41''), (''legacy'', ''9'')]"
    by (simp add: f1 f2 p)
  have ok: "refresh_server_map ?up user_client populated_state =
     (Inr (), snd (refresh_server_map ?up user_client populated_state))"
    by (simp add: refresh_server_map_def get_servers_ok Let_def)
  note U = refresh_replaces_wholesale [where en = ?up and c = user_client and s = populated_state]
  from U [THEN conjunct2, THEN conjunct2, rule_format, OF ok]
  obtain servers s1 svs idx where
    g: "get_servers ?up user_client populated_state = (Inr servers, s1)"
    and it: "py_iter servers = Inr svs" and ix: "id_by_name ?up svs [] = Inr idx"
    and vals: "distinct (map fst (SERVERS_CFG populated_state))
       \<longrightarrow> (\<forall>k. map_of (server_map (snd (refresh_server_map ?up user_client populated_state))) k
                  = map_option (resolve idx) (map_of (SERVERS_CFG populated_state) k))"
    by blast
  from g have "servers = JArr [?sv]" by (simp add: get_servers_ok)
  with it have "svs = [?sv]" by auto
  with ix have idx: "idx = [(JStr ''SMP'', py_str ?up (JStr ''42''))]" by auto
  from vals d have v: "map_of (server_map (snd (refresh_server_map ?up user_client populated_state))) k
                  = map_option (resolve idx) (map_of (SERVERS_CFG populated_state) k)" for k
    by blast
  have py: "py_str ?up (JStr ''42'') = ''42''" by simp
  have m1: "map_of (server_map (snd (refresh_server_map ?up user_client populated_state))) ''survival''
              = Some ''42''"
    by (simp add: v cf idx py resolve_def)
  have m2: "map_of (server_map (snd (refresh_server_map ?up user_client populated_state))) ''creative''
              = Some ''7f3a''"
    by (simp add: v cf idx py resolve_def)
  have m3: "map_of (server_map (snd (refresh_server_map ?up user_client populated_state))) ''legacy''
              = None"
    by (simp add: v cf)
  from ok have o: "fst (refresh_server_map ?up user_client populated_state) = Inr ()"
    by (metis fst_conv)
  from gs have g0: "fst (get_servers ?down user_client populated_state) = Inl (HttpError 500 ''boom'')"
    by (metis fst_conv)
  from p g0 f1 f3 o d m1 m2 m3 show ?thesis by blast
qed

text \<open>
  C6, as amended. \<open>svs\<close> is the fetched server list and the refresh succeeds. A configured
  pair \<open>(friendly, craft_name)\<close> whose \<open>craft_name\<close> is the \<^verbatim>\<open>server_name\<close> of no server in
  the list is mapped to \<open>craft_name\<close> itself. A pair whose \<open>craft_name\<close> is the name of
  some server is mapped to \<^verbatim>\<open>str(server_id)\<close> of the last server of that name, unless that
  string is empty: then it is mapped to \<open>craft_name\<close>, like a pair with no match.
\<close>

theorem refresh_resolves_names:
  assumes "get_servers en c s = (Inr (JArr svs), s1)"
    and "refresh_server_map en c s = (Inr u, s')"
    and "distinct (map fst (SERVERS_CFG s))"
    and "(friendly, craft_name) \<in> set (SERVERS_CFG s)"
  shows "((\<forall>sv \<in> set svs. py_subscript sv ''server_name'' \<noteq> Inr (JStr craft_name))
            \<longrightarrow> map_of (server_map s') friendly = Some craft_name)
       \<and> (\<forall>before sv after sid.
             svs = before @ sv # after
             \<and> py_subscript sv ''server_name'' = Inr (JStr craft_name)
             \<and> (\<forall>x \<in> set after. py_subscript x ''server_name'' \<noteq> Inr (JStr craft_name))
             \<and> py_subscript sv ''server_id'' = Inr sid
           \<longrightarrow> map_of (server_map s') friendly
                 = Some (if py_str en sid = [] then craft_name else py_str en sid))"
proof -
  from refresh_success [OF assms(2)] assms(1) obtain idx where
    idx: "id_by_name en svs [] = Inr idx" and
    s': "server_map s' = new_map idx (SERVERS_CFG s) []"
    by auto
  from assms(3,4) have "map_of (SERVERS_CFG s) friendly = Some craft_name" by simp
  with assms(3) s' have m: "map_of (server_map s') friendly = Some (resolve idx craft_name)"
    by (simp add: map_of_new_map)
  have "map_of (server_map s') friendly = Some craft_name"
    if "\<forall>sv \<in> set svs. py_subscript sv ''server_name'' \<noteq> Inr (JStr craft_name)"
    using id_by_name_no_match [OF idx that] m by (simp add: resolve_def)
  moreover have "map_of (server_map s') friendly
                 = Some (if py_str en sid = [] then craft_name else py_str en sid)"
    if "svs = before @ sv # after" "py_subscript sv ''server_name'' = Inr (JStr craft_name)"
       "\<forall>x \<in> set after. py_subscript x ''server_name'' \<noteq> Inr (JStr craft_name)"
       "py_subscript sv ''server_id'' = Inr sid" for before sv after sid
    using id_by_name_last_match [OF idx [unfolded that(1)] that(2) that(4) that(3)] m
    by (simp add: resolve_def)
  ultimately show ?thesis by blast
qed


text \<open>
  The theorem at a list that holds the server SMP with identifier 42: \<open>survival\<close>, configured
  as SMP, is mapped to 42, and \<open>creative\<close>, configured as 7f3a, to 7f3a.
\<close>

theorem refresh_resolves_names_witness:
  "get_servers (servers_env ok_servers) token_client (init_state example_cfg) =
     (Inr (JArr [JObj [(''server_name'', JStr ''SMP''), (''server_id'', JStr ''42'')]]),
      snd (get_servers (servers_env ok_servers) token_client (init_state example_cfg)))
   \<and> refresh_server_map (servers_env ok_servers) token_client (init_state example_cfg) =
       (Inr (), snd (refresh_server_map (servers_env ok_servers) token_client (init_state example_cfg)))
   \<and> distinct (map fst (SERVERS_CFG (init_state example_cfg)))
   \<and> (''survival'', ''SMP'') \<in> set (SERVERS_CFG (init_state example_cfg))
   \<and> (''creative'', ''7f3a'') \<in> set (SERVERS_CFG (init_state example_cfg))
   \<and> map_of (server_map (snd (refresh_server_map (servers_env ok_servers) token_client
                                  (init_state example_cfg)))) ''survival'' = Some ''42''
   \<and> map_of (server_map (snd (refresh_server_map (servers_env ok_servers) token_client
                                  (init_state example_cfg)))) ''creative'' = Some ''7f3a''"
proof -
  let ?en = "servers_env ok_servers" and ?s = "init_state example_cfg"
  let ?sv = "JObj [(''server_name'', JStr ''SMP''), (''server_id'', JStr ''42'')]"
  have h1: "get_servers ?en token_client ?s = (Inr (JArr [?sv]), snd (get_servers ?en token_client ?s))"
    by (simp add: get_servers_ok)
  have h2: "refresh_server_map ?en token_client ?s = (Inr (), snd (refresh_server_map ?en token_client ?s))"
    by (rule refresh_ok)
  have h3: "distinct (map fst (SERVERS_CFG ?s))" by simp
  have h4: "(''survival'', ''SMP'') \<in> set (SERVERS_CFG ?s)" by simp
  have h5: "(''creative'', ''7f3a'') \<in> set (SERVERS_CFG ?s)" by simp
  have a: "map_of (server_map (snd (refresh_server_map ?en token_client ?s))) ''survival'' = Some ''42''"
    using refresh_resolves_names [OF h1 h2 h3 h4, THEN conjunct2, rule_format,
            of "[]" ?sv "[]" "JStr ''42''"]
    by simp
  have b: "map_of (server_map (snd (refresh_server_map ?en token_client ?s))) ''creative'' = Some ''7f3a''"
    using refresh_resolves_names [OF h1 h2 h3 h5, THEN conjunct1] by simp
  from h1 h2 h3 h4 h5 a b show ?thesis by blast
qed

text \<open>
  C6 as stated fails where the matched server's identifier is the empty string:
  \<^verbatim>\<open>id_by_name.get(craft_name) or str(craft_name)\<close> takes it for a miss, and \<open>survival\<close> is
  mapped to the configured name SMP, not to the identifier.
\<close>

theorem refresh_empty_id_falls_back:
  "fst (get_servers (servers_env empty_id_servers) token_client (init_state example_cfg)) =
     Inr (JArr [JObj [(''server_name'', JStr ''SMP''), (''server_id'', JStr [])]])
   \<and> fst (refresh_server_map (servers_env empty_id_servers) token_client (init_state example_cfg)) = Inr ()
   \<and> map_of (SERVERS_CFG (init_state example_cfg)) ''survival'' = Some ''SMP''
   \<and> map_of (server_map (snd (refresh_server_map (servers_env empty_id_servers) token_client
                                  (init_state example_cfg)))) ''survival'' = Some ''SMP''
   \<and> map_of (server_map (snd (refresh_server_map (servers_env empty_id_servers) token_client
                                  (init_state example_cfg)))) ''survival''
       \<noteq> Some (py_str (servers_env empty_id_servers) (JStr []))"
proof -
  have gs: "get_servers (servers_env empty_id_servers) c s =
     (Inr (JArr [JObj [(''server_name'', JStr ''SMP''), (''server_id'', JStr [])]]),
      emit [Http (request_call c s ''GET'' ''/api/v2/servers'' no_kwargs) empty_id_servers] s)" for c s
    by (simp add: get_servers_def request_no_retry Let_def final_result_def empty_id_servers_def)
  show ?thesis
    by (simp add: refresh_server_map_def gs Let_def resolve_def)
qed

text \<open>The result of \<^verbatim>\<open>_request\<close> when the first answer is 401 and the re-login returns.\<close>

lemma request_after_relogin:
  assumes "\<not> has_bearer c"
    and "respond en (trace s) (request_call c s method path kw) = Response 401 tx0 bd0"
    and "login en c (emit [Http (request_call c s method path kw) (Response 401 tx0 bd0)] s)
           = (Inr tok, s2)"
  shows "request en c s method path True kw =
           (final_result (respond en (trace s2)
                            (request_call c s2 method path (kw\<lparr>kw_headers := None\<rparr>))),
            emit ([Http (request_call c s2 method path (kw\<lparr>kw_headers := None\<rparr>))
                        (respond en (trace s2)
                           (request_call c s2 method path (kw\<lparr>kw_headers := None\<rparr>)))]
                  @ transport_log (final_result (respond en (trace s2)
                            (request_call c s2 method path (kw\<lparr>kw_headers := None\<rparr>))))
                  @ transport_log (final_result (respond en (trace s2)
                            (request_call c s2 method path (kw\<lparr>kw_headers := None\<rparr>))))) s2)"
proof -
  have outer: "request en c s method path True kw =
                 (let out = request en c s2 method path False (kw\<lparr>kw_headers := None\<rparr>)
                  in (fst out, emit (transport_log (fst out)) (snd out)))"
    by (subst request.simps) (simp add: assms Let_def)
  have inner: "request en c s2 method path False (kw\<lparr>kw_headers := None\<rparr>) =
                 (let call = request_call c s2 method path (kw\<lparr>kw_headers := None\<rparr>);
                      r = respond en (trace s2) call
                  in (final_result r, emit ([Http call r] @ transport_log (final_result r)) s2))"
    by (rule request_no_retry) simp
  show ?thesis by (simp add: outer inner Let_def emit_def)
qed

lemma refresh_after_request_without_data:
  assumes "request en c s ''GET'' ''/api/v2/servers'' True no_kwargs = (Inr (JObj kvs), s1)"
    and "map_of kvs ''data'' = None"
    and "distinct (map fst (SERVERS_CFG s))"
  shows "get_servers en c s = (Inr (JArr []), s1)"
    and "refresh_server_map en c s =
           (Inr (), emit [Log Info (ServerMapLogged (new_map [] (SERVERS_CFG s) []))]
                      (s1\<lparr>server_map := new_map [] (SERVERS_CFG s) []\<rparr>))"
    and "map_of (server_map (snd (refresh_server_map en c s))) = map_of (SERVERS_CFG s)"
proof -
  show gs: "get_servers en c s = (Inr (JArr []), s1)"
    by (simp add: get_servers_def assms(1,2))
  from get_servers_only_client_state [of s en c] gs
  have "SERVERS_CFG s1 = SERVERS_CFG s" by (simp add: only_client_state_fields)
  then show rf: "refresh_server_map en c s =
           (Inr (), emit [Log Info (ServerMapLogged (new_map [] (SERVERS_CFG s) []))]
                      (s1\<lparr>server_map := new_map [] (SERVERS_CFG s) []\<rparr>))"
    by (simp add: refresh_server_map_def gs Let_def)
  have "map_of (new_map [] (SERVERS_CFG s) []) k = map_of (SERVERS_CFG s) k" for k
    by (simp add: map_of_new_map [OF assms(3)] resolve_def split: option.splits)
  then show "map_of (server_map (snd (refresh_server_map en c s))) = map_of (SERVERS_CFG s)"
    by (auto simp: rf)
qed

lemma login_relogin_no_data:
  "login relogin_no_data_env user_client s =
     (Inr (JStr ''t2''), emit [Http (login_call user_client)
         (Response 200 [] (Some (JObj [(''data'', JObj [(''token'', JStr ''t2'')])]))), Log Info LoggedIn]
         (s\<lparr>token := Some (JStr ''t2'')\<rparr>))"
  by (simp add: login_def relogin_no_data_env_def no_discord_def extract_token_def Let_def emit_def)

text \<open>
  C10, as amended. The answer that ends the server list request has a status below 400
  and its body is a JSON object with no \<^verbatim>\<open>data\<close> key. That answer is either the first one, or,
  for a client without static token whose first answer was 401 and whose re-login
  returned, the answer to the one retry. Then \<^verbatim>\<open>get_servers\<close> returns the empty list,
  \<^verbatim>\<open>refresh_server_map\<close> returns without raising, and the published map sends every
  configured friendly name to its configured remote name (the friendly names being
  distinct, as the keys of the configuration are).
\<close>

theorem refresh_without_data_key:
  assumes "respond en (trace s) (request_call c s ''GET'' ''/api/v2/servers'' no_kwargs)
             = Response st tx (Some (JObj kvs))
           \<or> (\<exists>tx0 bd0 tok s2.
                 \<not> has_bearer c
               \<and> respond en (trace s) (request_call c s ''GET'' ''/api/v2/servers'' no_kwargs)
                   = Response 401 tx0 bd0
               \<and> login en c (emit [Http (request_call c s ''GET'' ''/api/v2/servers'' no_kwargs)
                                        (Response 401 tx0 bd0)] s) = (Inr tok, s2)
               \<and> respond en (trace s2)
                     (request_call c s2 ''GET'' ''/api/v2/servers'' (no_kwargs\<lparr>kw_headers := None\<rparr>))
                   = Response st tx (Some (JObj kvs)))"
    and "st < 400"
    and "map_of kvs ''data'' = None"
    and "distinct (map fst (SERVERS_CFG s))"
  shows "fst (request en c s ''GET'' ''/api/v2/servers'' True no_kwargs) = Inr (JObj kvs)
       \<and> fst (get_servers en c s) = Inr (JArr [])
       \<and> fst (refresh_server_map en c s) = Inr ()
       \<and> map_of (server_map (snd (refresh_server_map en c s))) = map_of (SERVERS_CFG s)
       \<and> (\<forall>friendly craft_name. (friendly, craft_name) \<in> set (SERVERS_CFG s)
              \<longrightarrow> map_of (server_map (snd (refresh_server_map en c s))) friendly = Some craft_name)"
proof -
  have "\<exists>s1. request en c s ''GET'' ''/api/v2/servers'' True no_kwargs = (Inr (JObj kvs), s1)"
    using assms(1)
  proof
    assume "respond en (trace s) (request_call c s ''GET'' ''/api/v2/servers'' no_kwargs)
             = Response st tx (Some (JObj kvs))"
    with assms(2) show ?thesis
      by (simp add: request_no_retry Let_def final_result_def)
  next
    assume "\<exists>tx0 bd0 tok s2.
                 \<not> has_bearer c
               \<and> respond en (trace s) (request_call c s ''GET'' ''/api/v2/servers'' no_kwargs)
                   = Response 401 tx0 bd0
               \<and> login en c (emit [Http (request_call c s ''GET'' ''/api/v2/servers'' no_kwargs)
                                        (Response 401 tx0 bd0)] s) = (Inr tok, s2)
               \<and> respond en (trace s2)
                     (request_call c s2 ''GET'' ''/api/v2/servers'' (no_kwargs\<lparr>kw_headers := None\<rparr>))
                   = Response st tx (Some (JObj kvs))"
    then obtain tx0 bd0 tok s2 where nb: "\<not> has_bearer c"
      and r1: "respond en (trace s) (request_call c s ''GET'' ''/api/v2/servers'' no_kwargs)
                 = Response 401 tx0 bd0"
      and lg: "login en c (emit [Http (request_call c s ''GET'' ''/api/v2/servers'' no_kwargs)
                                        (Response 401 tx0 bd0)] s) = (Inr tok, s2)"
      and r2: "respond en (trace s2)
                 (request_call c s2 ''GET'' ''/api/v2/servers'' (no_kwargs\<lparr>kw_headers := None\<rparr>))
               = Response st tx (Some (JObj kvs))"
      by blast
    from assms(2) have fr: "final_result (Response st tx (Some (JObj kvs))) = Inr (JObj kvs)"
      by (simp add: final_result_def)
    show ?thesis
      unfolding request_after_relogin [OF nb r1 lg] r2 fr by simp
  qed
  then obtain s1 where
    rq: "request en c s ''GET'' ''/api/v2/servers'' True no_kwargs = (Inr (JObj kvs), s1)" ..
  note R = refresh_after_request_without_data [OF rq assms(3,4)]
  have m: "map_of (server_map (snd (refresh_server_map en c s))) = map_of (SERVERS_CFG s)"
    by (rule R(3))
  have "map_of (server_map (snd (refresh_server_map en c s))) friendly = Some craft_name"
    if "(friendly, craft_name) \<in> set (SERVERS_CFG s)" for friendly craft_name
    using that assms(4) by (simp add: m)
  with rq R(1,2) m show ?thesis by simp
qed

text \<open>
  The theorem at the body \<^verbatim>\<open>{"status": "ok"}\<close>: as the first answer, and as the answer to the
  retry after a 401 and a re-login.
\<close>

theorem refresh_without_data_key_witness:
  "respond (servers_env no_data_servers) (trace (init_state example_cfg))
       (request_call user_client (init_state example_cfg) ''GET'' ''/api/v2/servers'' no_kwargs)
     = Response 200 [] (Some (JObj [(''status'', JStr ''ok'')]))
   \<and> (200 :: nat) < 400
   \<and> map_of [(''status'', JStr ''ok'')] ''data'' = None
   \<and> distinct (map fst (SERVERS_CFG (init_state example_cfg)))
   \<and> fst (get_servers (servers_env no_data_servers) user_client (init_state example_cfg)) = Inr (JArr [])
   \<and> fst (refresh_server_map (servers_env no_data_servers) user_client (init_state example_cfg)) = Inr ()
   \<and> map_of (server_map (snd (refresh_server_map (servers_env no_data_servers) user_client
                                  (init_state example_cfg)))) ''survival'' = Some ''SMP''
   \<and> map_of (server_map (snd (refresh_server_map (servers_env no_data_servers) user_client
                                  (init_state example_cfg)))) ''creative'' = Some ''7f3a''
   \<and> \<not> has_bearer user_client
   \<and> respond relogin_no_data_env (trace (init_state example_cfg))
         (request_call user_client (init_state example_cfg) ''GET'' ''/api/v2/servers'' no_kwargs)
       = Response 401 ''expired'' None
   \<and> fst (login relogin_no_data_env user_client
             (emit [Http (request_call user_client (init_state example_cfg)
                            ''GET'' ''/api/v2/servers'' no_kwargs)
                         (Response 401 ''expired'' None)] (init_state example_cfg)))
       = Inr (JStr ''t2'')
   \<and> fst (get_servers relogin_no_data_env user_client (init_state example_cfg)) = Inr (JArr [])
   \<and> fst (refresh_server_map relogin_no_data_env user_client (init_state example_cfg)) = Inr ()
   \<and> map_of (server_map (snd (refresh_server_map relogin_no_data_env user_client
                                  (init_state example_cfg)))) ''survival'' = Some ''SMP''
   \<and> map_of (server_map (snd (refresh_server_map relogin_no_data_env user_client
                                  (init_state example_cfg)))) ''creative'' = Some ''7f3a''"
proof -
  let ?s = "init_state example_cfg"
  let ?call = "request_call user_client ?s ''GET'' ''/api/v2/servers'' no_kwargs"
  let ?kvs = "[(''status'', JStr ''ok'')]"
  have h1: "respond (servers_env no_data_servers) (trace ?s) ?call
              = Response 200 [] (Some (JObj ?kvs))"
    by (simp add: no_data_servers_def)
  have h2: "(200 :: nat) < 400" by simp
  have h3: "map_of ?kvs ''data'' = None" by simp
  have h4: "distinct (map fst (SERVERS_CFG ?s))" by simp
  have sv: "(''survival'', ''SMP'') \<in> set (SERVERS_CFG ?s)" by simp
  have cr: "(''creative'', ''7f3a'') \<in> set (SERVERS_CFG ?s)" by simp
  note A = refresh_without_data_key [OF disjI1 [OF h1] h2 h3 h4]
  have a1: "fst (get_servers (servers_env no_data_servers) user_client ?s) = Inr (JArr [])"
    and a2: "fst (refresh_server_map (servers_env no_data_servers) user_client ?s) = Inr ()"
    using A by blast+
  have a3: "map_of (server_map (snd (refresh_server_map (servers_env no_data_servers) user_client ?s)))
              ''survival'' = Some ''SMP''"
    using A sv by blast
  have a4: "map_of (server_map (snd (refresh_server_map (servers_env no_data_servers) user_client ?s)))
              ''creative'' = Some ''7f3a''"
    using A cr by blast
  have nb: "\<not> has_bearer user_client" by simp
  have r1: "respond relogin_no_data_env (trace ?s) ?call = Response 401 ''expired'' None"
    by (simp add: relogin_no_data_env_def no_discord_def request_call_def login_call_def)
  let ?s2 = "emit [Http (login_call user_client)
         (Response 200 [] (Some (JObj [(''data'', JObj [(''token'', JStr ''t2'')])]))), Log Info LoggedIn]
         ((emit [Http ?call (Response 401 ''expired'' None)] ?s)\<lparr>token := Some (JStr ''t2'')\<rparr>)"
  have lg: "login relogin_no_data_env user_client (emit [Http ?call (Response 401 ''expired'' None)] ?s)
              = (Inr (JStr ''t2''), ?s2)"
    by (rule login_relogin_no_data)
  have r2: "respond relogin_no_data_env (trace ?s2)
              (request_call user_client ?s2 ''GET'' ''/api/v2/servers'' (no_kwargs\<lparr>kw_headers := None\<rparr>))
            = Response 200 [] (Some (JObj ?kvs))"
    by (simp add: relogin_no_data_env_def no_discord_def request_call_def login_call_def
          no_data_servers_def emit_def)
  have path: "respond relogin_no_data_env (trace ?s) ?call = Response 200 [] (Some (JObj ?kvs))
           \<or> (\<exists>tx0 bd0 tok s2.
                 \<not> has_bearer user_client
               \<and> respond relogin_no_data_env (trace ?s) ?call = Response 401 tx0 bd0
               \<and> login relogin_no_data_env user_client (emit [Http ?call (Response 401 tx0 bd0)] ?s)
                   = (Inr tok, s2)
               \<and> respond relogin_no_data_env (trace s2)
                     (request_call user_client s2 ''GET'' ''/api/v2/servers''
                        (no_kwargs\<lparr>kw_headers := None\<rparr>))
                   = Response 200 [] (Some (JObj ?kvs)))"
    using nb r1 lg r2 by blast
  note B = refresh_without_data_key [OF path h2 h3 h4]
  have b1: "fst (get_servers relogin_no_data_env user_client ?s) = Inr (JArr [])"
    and b2: "fst (refresh_server_map relogin_no_data_env user_client ?s) = Inr ()"
    using B by blast+
  have b3: "map_of (server_map (snd (refresh_server_map relogin_no_data_env user_client ?s)))
              ''survival'' = Some ''SMP''"
    using B sv by blast
  have b4: "map_of (server_map (snd (refresh_server_map relogin_no_data_env user_client ?s)))
              ''creative'' = Some ''7f3a''"
    using B cr by blast
  from lg have l: "fst (login relogin_no_data_env user_client
                          (emit [Http ?call (Response 401 ''expired'' None)] ?s)) = Inr (JStr ''t2'')"
    by simp
  from h1 h2 h3 h4 a1 a2 a3 a4 nb r1 l b1 b2 b3 b4 show ?thesis by blast
qed

text \<open>
  C10 as stated fails in its last clause, that \<^verbatim>\<open>refresh_server_map\<close> raises only when the
  HTTP request itself fails. Here the request succeeds, with status 200 and the body
  \<^verbatim>\<open>{"data": null}\<close>: \<^verbatim>\<open>_request\<close> returns the body, \<^verbatim>\<open>get_servers\<close> returns \<^verbatim>\<open>None\<close>, and the
  loop over it raises TypeError. The map is not replaced.
\<close>

theorem refresh_data_null_raises:
  "respond (servers_env null_data_servers) (trace (init_state example_cfg))
       (request_call token_client (init_state example_cfg) ''GET'' ''/api/v2/servers'' no_kwargs)
     = Response 200 [] (Some (JObj [(''data'', JNull)]))
   \<and> fst (request (servers_env null_data_servers) token_client (init_state example_cfg)
            ''GET'' ''/api/v2/servers'' True no_kwargs) = Inr (JObj [(''data'', JNull)])
   \<and> fst (get_servers (servers_env null_data_servers) token_client (init_state example_cfg))
       = Inr JNull
   \<and> fst (refresh_server_map (servers_env null_data_servers) token_client (init_state example_cfg))
       = Inl TypeError
   \<and> server_map (snd (refresh_server_map (servers_env null_data_servers) token_client
                        (init_state example_cfg))) = []"
proof -
  have rq: "request (servers_env null_data_servers) c s ''GET'' ''/api/v2/servers'' True no_kwargs =
     (Inr (JObj [(''data'', JNull)]),
      emit [Http (request_call c s ''GET'' ''/api/v2/servers'' no_kwargs) null_data_servers] s)" for c s
    by (simp add: request_no_retry Let_def final_result_def null_data_servers_def)
  have gs: "get_servers (servers_env null_data_servers) c s =
     (Inr JNull,
      emit [Http (request_call c s ''GET'' ''/api/v2/servers'' no_kwargs) null_data_servers] s)" for c s
    by (simp add: get_servers_def rq)
  have rs: "respond (servers_env null_data_servers) (trace (init_state example_cfg))
       (request_call token_client (init_state example_cfg) ''GET'' ''/api/v2/servers'' no_kwargs)
     = Response 200 [] (Some (JObj [(''data'', JNull)]))"
    by (simp add: null_data_servers_def)
  have rf: "refresh_server_map (servers_env null_data_servers) token_client (init_state example_cfg)
     = (Inl TypeError,
        emit [Http (request_call token_client (init_state example_cfg)
                      ''GET'' ''/api/v2/servers'' no_kwargs) null_data_servers]
          (init_state example_cfg))"
    by (simp add: refresh_server_map_def gs)
  show ?thesis
    unfolding rf gs rq rs by simp
qed

subsection \<open>Authorization\<close>

lemma role_allowed_iff: "role_allowed roles allowed \<longleftrightarrow> (\<exists>r \<in> set roles. r \<in> set allowed)"
  by (induction roles) auto

lemma send_emit: "send r e s = emit [Send r e] s"
  by (simp add: send_def)

lemma dec_examples [simp]: "dec 2002 = ''2002''" "dec 1001 = ''1001''"
  by code_simp+

text \<open>
  A caller who is a guild member. Such a caller is authorized exactly when
  \<^verbatim>\<open>str(ctx.user.id)\<close> is among the configured ids (each taken through \<^verbatim>\<open>str\<close>) or one of
  the caller's role names is among the configured role names. For a member with neither,
  each of \<^verbatim>\<open>start\<close>, \<^verbatim>\<open>stop\<close>, \<^verbatim>\<open>restart\<close>, \<^verbatim>\<open>status\<close> and \<^verbatim>\<open>reload-config\<close> returns
  after a single effect, the denial sent as an ephemeral message (visible to the caller
  only); no request goes to Crafty and nothing else in the state changes.
\<close>

lemma unauthorized_member_is_denied:
  assumes "user_roles ctx = Some roles"
  shows "is_authorized en s ctx =
           Inr (py_str en (JNum (int (user_id ctx)))
                  \<in> set (map (py_str en) (cfg_allowed_user_ids (cfg s)))
                \<or> (\<exists>role \<in> set roles. role \<in> set (cfg_allowed_role_names (cfg s))))
   \<and> (py_str en (JNum (int (user_id ctx))) \<notin> set (map (py_str en) (cfg_allowed_user_ids (cfg s)))
       \<and> (\<forall>role \<in> set roles. role \<notin> set (cfg_allowed_role_names (cfg s)))
      \<longrightarrow> start en c s ctx server = (Inr (), emit [Send Unauthorized True] s)
        \<and> stop en c s ctx server = (Inr (), emit [Send Unauthorized True] s)
        \<and> restart en c s ctx server = (Inr (), emit [Send Unauthorized True] s)
        \<and> status en c s ctx server = (Inr (), emit [Send Unauthorized True] s)
        \<and> reload_config en c s ctx = (Inr (), emit [Send Unauthorized True] s))"
proof -
  have auth: "is_authorized en s ctx =
           Inr (py_str en (JNum (int (user_id ctx)))
                  \<in> set (map (py_str en) (cfg_allowed_user_ids (cfg s)))
                \<or> (\<exists>role \<in> set roles. role \<in> set (cfg_allowed_role_names (cfg s))))"
    using assms by (simp add: is_authorized_def role_allowed_iff)
  have "start en c s ctx server = (Inr (), emit [Send Unauthorized True] s)
        \<and> stop en c s ctx server = (Inr (), emit [Send Unauthorized True] s)
        \<and> restart en c s ctx server = (Inr (), emit [Send Unauthorized True] s)
        \<and> status en c s ctx server = (Inr (), emit [Send Unauthorized True] s)
        \<and> reload_config en c s ctx = (Inr (), emit [Send Unauthorized True] s)"
    if "is_authorized en s ctx = Inr False"
    using that
    by (simp add: start_def stop_def restart_def status_def reload_config_def action_command_def
          send_emit)
  with auth show ?thesis by auto
qed

lemma unauthorized_member_example:
  "is_authorized no_discord (init_state example_cfg) member_ctx = Inr False
   \<and> start no_discord user_client (init_state example_cfg) member_ctx ''survival''
       = (Inr (), emit [Send Unauthorized True] (init_state example_cfg))
   \<and> reload_config no_discord user_client (init_state example_cfg) member_ctx
       = (Inr (), emit [Send Unauthorized True] (init_state example_cfg))"
proof -
  have r: "user_roles member_ctx = Some [''Member'', ''Builder'']" by (simp add: member_ctx_def)
  have p1: "py_str no_discord (JNum (int (user_id member_ctx)))
     \<notin> set (map (py_str no_discord) (cfg_allowed_user_ids (cfg (init_state example_cfg))))"
    by (simp add: member_ctx_def example_cfg_def)
  have p2: "\<forall>role \<in> set [''Member'', ''Builder''].
              role \<notin> set (cfg_allowed_role_names (cfg (init_state example_cfg)))"
    by (simp add: example_cfg_def)
  note T = unauthorized_member_is_denied [OF r, where en = no_discord
             and s = "init_state example_cfg" and c = user_client and server = "''survival''"]
  from T [THEN conjunct1] p1 p2
  have "is_authorized no_discord (init_state example_cfg) member_ctx = Inr False" by simp
  with T [THEN conjunct2] p1 p2 show ?thesis by blast
qed

text \<open>
  C7 at a caller who invokes a command in a direct message and whose id is not among the
  configured ids. The caller has no roles to read: \<^verbatim>\<open>for role in ctx.user.roles\<close> raises
  AttributeError inside \<^verbatim>\<open>is_authorized\<close>, before the command can send the denial. Each of
  the five commands ends with that error; no message is sent and no request goes to
  Crafty.
\<close>

theorem unauthorized_dm_caller_gets_no_denial:
  "py_str no_discord (JNum (int (user_id dm_ctx)))
     \<notin> set (map (py_str no_discord) (cfg_allowed_user_ids (cfg (init_state example_cfg))))
   \<and> user_roles dm_ctx = None
   \<and> is_authorized no_discord (init_state example_cfg) dm_ctx = Inl AttributeError
   \<and> start no_discord user_client (init_state example_cfg) dm_ctx ''survival''
       = (Inl AttributeError, init_state example_cfg)
   \<and> stop no_discord user_client (init_state example_cfg) dm_ctx ''survival''
       = (Inl AttributeError, init_state example_cfg)
   \<and> restart no_discord user_client (init_state example_cfg) dm_ctx ''survival''
       = (Inl AttributeError, init_state example_cfg)
   \<and> status no_discord user_client (init_state example_cfg) dm_ctx ''survival''
       = (Inl AttributeError, init_state example_cfg)
   \<and> reload_config no_discord user_client (init_state example_cfg) dm_ctx
       = (Inl AttributeError, init_state example_cfg)"
  by (simp add: is_authorized_def dm_ctx_def example_cfg_def start_def stop_def restart_def
        status_def reload_config_def action_command_def)

subsection \<open>Channel reconciler\<close>

lemma rename_times_append: "rename_times ch (xs @ ys) = rename_times ch xs @ rename_times ch ys"
  by (induction ch xs rule: rename_times.induct) auto

lemma rename_times_no_edit: "filter is_edit es = [] \<Longrightarrow> rename_times ch es = []"
  by (induction ch es rule: rename_times.induct) auto



lemma cooled_no_edit: "filter is_edit es = [] \<Longrightarrow> cooled ch l es"
  by (induction ch l es rule: cooled.induct) auto

lemma cooled_append:
  "cooled ch l (xs @ ys) =
     (cooled ch l xs \<and> cooled ch (case last_rename ch xs of None \<Rightarrow> l | Some t \<Rightarrow> Some t) ys)"
proof (induction ch l xs rule: cooled.induct)
  case (1 ch prev)
  then show ?case by (simp add: last_rename_def)
next
  case (2 ch prev ch' name t ok es)
  then show ?case
    by (simp add: last_rename_def split: option.splits)
qed (simp_all add: last_rename_def)

lemma last_rename_append:
  "last_rename ch (xs @ ys) = (case last_rename ch ys of None \<Rightarrow> last_rename ch xs | Some t \<Rightarrow> Some t)"
  by (simp add: last_rename_def rename_times_append)

lemma last_rename_no_edit: "filter is_edit es = [] \<Longrightarrow> last_rename ch es = None"
  by (simp add: last_rename_def rename_times_no_edit)

lemma CHANNEL_COOLDOWN_nonneg: "0 \<le> CHANNEL_COOLDOWN"
  by (simp add: CHANNEL_COOLDOWN_def)

lemma cooled_spaced:
  "cooled ch lo tr \<Longrightarrow>
   sorted_wrt (\<lambda>a b. a + CHANNEL_COOLDOWN \<le> b) (rename_times ch tr)
   \<and> (\<forall>l. lo = Some l \<longrightarrow> (\<forall>t \<in> set (rename_times ch tr). l + CHANNEL_COOLDOWN \<le> t))"
proof (induction ch lo tr rule: cooled.induct)
  case (2 ch prev ch' name t ok es)
  show ?case
  proof (cases "ch' = ch")
    case same: True
    from "2.prems" same have c: "cooled ch (if ok then Some t else prev) es"
      and b: "\<forall>l. prev = Some l \<longrightarrow> l + CHANNEL_COOLDOWN \<le> t"
      by (simp_all split: option.splits)
    note ih = "2.IH"(1) [OF same c]
    show ?thesis
    proof (cases ok)
      case True
      from ih True
      have s: "sorted_wrt (\<lambda>a b. a + CHANNEL_COOLDOWN \<le> b) (rename_times ch es)"
        and a: "\<forall>x \<in> set (rename_times ch es). t + CHANNEL_COOLDOWN \<le> x"
        by simp_all
      have "l + CHANNEL_COOLDOWN \<le> x" if "prev = Some l" "x \<in> set (rename_times ch es)" for l x
      proof -
        from b that(1) have "l + CHANNEL_COOLDOWN \<le> t" by simp
        moreover from a that(2) have "t + CHANNEL_COOLDOWN \<le> x" by simp
        ultimately show ?thesis using CHANNEL_COOLDOWN_nonneg by linarith
      qed
      with True same s a b show ?thesis by simp
    next
      case False
      with ih same show ?thesis by simp
    qed
  next
    case False
    with "2.prems" have "cooled ch prev es" by simp
    from "2.IH"(2) [OF False this] False show ?thesis by simp
  qed
qed simp_all

lemma quiet_step_refl [simp]: "quiet_step s s"
  by (simp add: quiet_step_def)

lemma quiet_stepE:
  assumes "quiet_step s s'"
  obtains es where "trace s' = trace s @ es" and "filter is_edit es = []"
    and "channel_last_update s' = channel_last_update s"
proof
  let ?es = "drop (length (trace s)) (trace s')"
  from assms have tk: "take (length (trace s)) (trace s') = trace s"
    and ne: "filter is_edit ?es = []" and cl: "channel_last_update s' = channel_last_update s"
    by (simp_all add: quiet_step_def)
  show "trace s' = trace s @ ?es"
    using append_take_drop_id [of "length (trace s)" "trace s'"] tk by simp
  show "filter is_edit ?es = []" by (rule ne)
  show "channel_last_update s' = channel_last_update s" by (rule cl)
qed

lemma quiet_stepI:
  "trace s' = trace s @ es \<Longrightarrow> filter is_edit es = [] \<Longrightarrow>
   channel_last_update s' = channel_last_update s \<Longrightarrow> quiet_step s s'"
  by (simp add: quiet_step_def)

lemma quiet_step_trans:
  assumes "quiet_step s s1" and "quiet_step s1 s2"
  shows "quiet_step s s2"
proof -
  from assms(1) obtain es where 1: "trace s1 = trace s @ es" "filter is_edit es = []"
    "channel_last_update s1 = channel_last_update s" by (rule quiet_stepE)
  from assms(2) obtain ds where 2: "trace s2 = trace s1 @ ds" "filter is_edit ds = []"
    "channel_last_update s2 = channel_last_update s1" by (rule quiet_stepE)
  show ?thesis
    by (rule quiet_stepI [where es = "es @ ds"]) (simp_all add: 1 2)
qed

lemma only_client_state_quiet:
  assumes "only_client_state s s'"
  shows "quiet_step s s'"
proof -
  from assms obtain es tk where "s' = (emit es s)\<lparr>token := tk\<rparr>" "filter is_edit es = []"
    by (rule only_client_stateE)
  then show ?thesis by (simp add: quiet_step_def)
qed

lemma quiet_step_emit [simp]: "filter is_edit es = [] \<Longrightarrow> quiet_step s (emit es s)"
  by (simp add: quiet_step_def)

lemma cooldown_inv_quiet:
  assumes "quiet_step s s'" and "cooldown_inv ch s"
  shows "cooldown_inv ch s'"
proof -
  from assms(1) obtain es where e: "trace s' = trace s @ es" "filter is_edit es = []"
    "channel_last_update s' = channel_last_update s" by (rule quiet_stepE)
  show ?thesis
    using assms(2) e
    by (simp add: cooldown_inv_def cooled_append cooled_no_edit last_rename_append
                  last_rename_no_edit split: option.splits)
qed

lemma get_stats_only_client_state: "only_client_state s (snd (get_stats en c s sid))"
proof (cases "request en c s ''GET'' (''/api/v2/servers/'' @ sid @ ''/stats'') True no_kwargs")
  case (Pair res s1)
  then have "snd (get_stats en c s sid) = s1"
    by (cases res) (simp_all add: get_stats_def)
  with Pair request_only_client_state [of s en c "''GET''" "''/api/v2/servers/'' @ sid @ ''/stats''" True no_kwargs]
  show ?thesis by simp
qed

lemma log_failed_quiet: "quiet_step s s1 \<Longrightarrow> quiet_step s (log_failed f e s1)"
  unfolding log_failed_def
  by (erule quiet_step_trans) simp

lemma update_binding_cases:
  obtains (quiet) "quiet_step s (update_binding en c g f ch s)"
  | (edit) s1 now rv ok sid data where "quiet_step s s1"
      "map_of (server_map s) f = Some sid" "get_stats en c s sid = (Inr data, s1)"
      "py_get data ''running'' JNull = Inr rv"
      "trace (update_binding en c g f ch s) =
         trace s1 @ [Clock now, Edit ch (new_name en f (truthy rv)) now ok]
           @ (if ok then [] else [Log Warning (FailedToUpdate f DiscordException)])"
      "channel_last_update (update_binding en c g f ch s) =
         (if ok then AList.update ch now (channel_last_update s) else channel_last_update s)"
      "(case map_of (channel_last_update s) ch of None \<Rightarrow> 0 | Some t \<Rightarrow> t) + CHANNEL_COOLDOWN \<le> now"
proof (cases "map_of (server_map s) f")
  case None
  then have "update_binding en c g f ch s = s" by (simp add: update_binding_def)
  then show ?thesis using quiet by simp
next
  case (Some sid)
  show ?thesis
  proof (cases "sid = []")
    case True
    with Some have "update_binding en c g f ch s = s" by (simp add: update_binding_def)
    then show ?thesis using quiet by simp
  next
    case nonempty: False
    obtain res s1 where gs: "get_stats en c s sid = (res, s1)" by (cases "get_stats en c s sid")
    from get_stats_only_client_state [of s en c sid] gs
    have q1: "quiet_step s s1" by (simp add: only_client_state_quiet)
    then have clu: "channel_last_update s1 = channel_last_update s"
      by (simp add: quiet_step_def)
    show ?thesis
    proof (cases res)
      case (Inl e)
      with Some nonempty gs have "update_binding en c g f ch s = log_failed f e s1"
        by (simp add: update_binding_def)
      with q1 show ?thesis using quiet by (simp add: log_failed_quiet)
    next
      case (Inr data)
      show ?thesis
      proof (cases "py_get data ''running'' JNull")
        case (Inl e)
        with Some nonempty gs Inr have "update_binding en c g f ch s = log_failed f e s1"
          by (simp add: update_binding_def)
        with q1 show ?thesis using quiet by (simp add: log_failed_quiet)
      next
        case rv: (Inr rv)
        show ?thesis
        proof (cases "get_channel en (trace s1) g ch")
          case None
          with Some nonempty gs Inr rv have "update_binding en c g f ch s = s1"
            by (simp add: update_binding_def)
          with q1 show ?thesis using quiet by simp
        next
          case name: (Some name)
          let ?new = "new_name en f (truthy rv)"
          let ?now = "clock en (trace s1)"
          let ?s2 = "emit [Clock ?now] s1"
          let ?prev = "case map_of (channel_last_update s) ch of None \<Rightarrow> 0 | Some t \<Rightarrow> t"
          show ?thesis
          proof (cases "name = ?new")
            case True
            with Some nonempty gs Inr rv name have "update_binding en c g f ch s = s1"
              by (simp add: update_binding_def)
            with q1 show ?thesis using quiet by simp
          next
            case differs: False
            show ?thesis
            proof (cases "?now - ?prev < CHANNEL_COOLDOWN")
              case True
              with Some nonempty gs Inr rv name differs clu
              have "update_binding en c g f ch s = emit [Clock ?now, Log Info (SkippingCooldown name)] s1"
                by (simp add: update_binding_def Let_def)
              moreover have "quiet_step s1 (emit [Clock ?now, Log Info (SkippingCooldown name)] s1)"
                by simp
              ultimately show ?thesis using quiet quiet_step_trans [OF q1] by simp
            next
              case elapsed: False
              show ?thesis
              proof (cases "edit_ok en (trace ?s2) ch ?new")
                case True
                with Some nonempty gs Inr rv name differs clu elapsed
                have "update_binding en c g f ch s =
                        (emit [Edit ch ?new ?now True] ?s2)
                          \<lparr>channel_last_update := AList.update ch ?now (channel_last_update s)\<rparr>"
                  by (simp add: update_binding_def Let_def)
                then have "trace (update_binding en c g f ch s) =
                             trace s1 @ [Clock ?now, Edit ch ?new ?now True] @ (if True then [] else [Log Warning (FailedToUpdate f DiscordException)])"
                  and "channel_last_update (update_binding en c g f ch s) =
                         (if True then AList.update ch ?now (channel_last_update s) else channel_last_update s)"
                  by simp_all
                moreover from elapsed have "?prev + CHANNEL_COOLDOWN \<le> ?now" by simp
                ultimately show ?thesis using edit [OF q1 Some _ rv] gs Inr by blast
              next
                case False
                with Some nonempty gs Inr rv name differs clu elapsed
                have "update_binding en c g f ch s =
                        log_failed f DiscordException (emit [Edit ch ?new ?now False] ?s2)"
                  by (simp add: update_binding_def Let_def)
                then have "trace (update_binding en c g f ch s) =
                             trace s1 @ [Clock ?now, Edit ch ?new ?now False] @ (if False then [] else [Log Warning (FailedToUpdate f DiscordException)])"
                  and "channel_last_update (update_binding en c g f ch s) =
                         (if False then AList.update ch ?now (channel_last_update s) else channel_last_update s)"
                  by (simp_all add: log_failed_def clu)
                moreover from elapsed have "?prev + CHANNEL_COOLDOWN \<le> ?now" by simp
                ultimately show ?thesis using edit [OF q1 Some _ rv] gs Inr by blast
              qed
            qed
          qed
        qed
      qed
    qed
  qed
qed

lemma update_binding_inv:
  assumes "cooldown_inv x s"
  shows "cooldown_inv x (update_binding en c g f ch s)"
proof (cases rule: update_binding_cases [of s en c g f ch])
  case quiet
  then show ?thesis using assms by (rule cooldown_inv_quiet)
next
  case (edit s1 now rv ok sid data)
  from edit(1) obtain es where e: "trace s1 = trace s @ es" "filter is_edit es = []"
    by (rule quiet_stepE)
  let ?s' = "update_binding en c g f ch s"
  let ?new = "es @ [Clock now, Edit ch (new_name en f (truthy rv)) now ok]
              @ (if ok then [] else [Log Warning (FailedToUpdate f DiscordException)])"
  have tr: "trace ?s' = trace s @ ?new"
    using edit(5) e by simp
  have rt: "rename_times x ?new = (if x = ch \<and> ok then [now] else [])"
    by (simp add: rename_times_append rename_times_no_edit [OF e(2)])
  have co: "cooled x p ?new =
              (x = ch \<longrightarrow> (case p of None \<Rightarrow> True | Some l \<Rightarrow> l + CHANNEL_COOLDOWN \<le> now))" for p
    by (simp add: cooled_append cooled_no_edit [OF e(2)] last_rename_no_edit [OF e(2)])
  have lr: "last_rename x (trace ?s') = (if x = ch \<and> ok then Some now else last_rename x (trace s))"
  proof -
    have "last_rename x ?new = (if x = ch \<and> ok then Some now else None)"
      unfolding last_rename_def rt by simp
    then show ?thesis
      unfolding tr last_rename_append by simp
  qed
  from assms have c0: "cooled x None (trace s)"
    and l0: "case last_rename x (trace s) of None \<Rightarrow> True
             | Some t \<Rightarrow> map_of (channel_last_update s) x = Some t"
    by (simp_all add: cooldown_inv_def)
  have c1: "cooled x None (trace ?s')"
  proof -
    have "cooled x (case last_rename x (trace s) of None \<Rightarrow> None | Some t \<Rightarrow> Some t) ?new"
      unfolding co using l0 edit(7) by (auto split: option.splits)
    with c0 show ?thesis
      unfolding tr cooled_append [of x None "trace s"] by simp
  qed
  have l1: "case last_rename x (trace ?s') of None \<Rightarrow> True
             | Some t \<Rightarrow> map_of (channel_last_update ?s') x = Some t"
    unfolding lr edit(6)
    using l0 by (auto simp: update_conv' split: option.splits)
  from c1 l1 show ?thesis by (simp add: cooldown_inv_def)
qed

lemma update_bindings_inv:
  "cooldown_inv x s \<Longrightarrow> cooldown_inv x (update_bindings en c g bs s)"
  by (induction bs arbitrary: s) (auto simp: update_binding_inv)

lemma update_guilds_inv:
  "cooldown_inv x s \<Longrightarrow> cooldown_inv x (update_guilds en c gs s)"
proof (induction gs arbitrary: s)
  case Nil
  then show ?case by simp
next
  case (Cons p gs)
  obtain g m where p: "p = (g, m)" by (cases p)
  have "cooldown_inv x (emit [Log Warning (GuildNotFound g)] s)"
    using Cons.prems by (rule cooldown_inv_quiet [rotated]) simp
  with Cons show ?case by (simp add: p update_bindings_inv)
qed

lemma refresh_quiet: "quiet_step s (snd (refresh_server_map en c s))"
proof (cases "refresh_server_map en c s")
  case (Pair res s')
  show ?thesis
  proof (cases res)
    case (Inl e)
    with Pair have "s' = snd (get_servers en c s)"
      by (cases "get_servers en c s")
         (auto simp: refresh_server_map_def Let_def split: sum.splits)
    with Pair show ?thesis
      using get_servers_only_client_state [of s en c] by (simp add: only_client_state_quiet)
  next
    case (Inr u)
    with Pair have "refresh_server_map en c s = (Inr u, s')" by simp
    from refresh_success [OF this] obtain servers s1 m where
      gs: "get_servers en c s = (Inr servers, s1)" and
      s': "s' = emit [Log Info (ServerMapLogged m)] (s1\<lparr>server_map := m\<rparr>)"
      by blast
    from gs get_servers_only_client_state [of s en c] have "quiet_step s s1"
      by (simp add: only_client_state_quiet)
    moreover have "quiet_step s1 s'" by (simp add: s' quiet_step_def)
    ultimately show ?thesis using Pair by (simp add: quiet_step_trans)
  qed
qed

lemma update_task_inv:
  assumes "cooldown_inv x s"
  shows "cooldown_inv x (snd (update_task en c s))"
proof (cases "refresh_server_map en c s")
  case (Pair res s1)
  with refresh_quiet [of s en c] assms have i: "cooldown_inv x s1"
    by (auto intro: cooldown_inv_quiet)
  show ?thesis
    using Pair i by (cases res) (simp_all add: update_task_def update_guilds_inv)
qed

lemma poll_cycles_inv:
  "cooldown_inv x s \<Longrightarrow> cooldown_inv x (poll_cycles en c n s)"
  by (induction n arbitrary: s) (simp_all add: update_task_inv)

lemma update_binding_blocked:
  assumes "map_of (server_map s) friendly = Some sid" and "sid \<noteq> []"
    and "get_stats en c s sid = (Inr data, s1)"
    and "py_get data ''running'' JNull = Inr rv"
    and "get_channel en (trace s1) g ch = Some name"
    and "name \<noteq> new_name en friendly (truthy rv)"
    and "clock en (trace s1) - (case map_of (channel_last_update s1) ch of None \<Rightarrow> 0 | Some t \<Rightarrow> t)
           < CHANNEL_COOLDOWN"
  shows "update_binding en c g friendly ch s =
           emit [Clock (clock en (trace s1)), Log Info (SkippingCooldown name)] s1"
  using assms by (simp add: update_binding_def Let_def)

text \<open>
  C3, as amended. From a state with no effects yet, after any number of poll cycles and
  for every channel: the successful renames of the channel are pairwise at least
  \<^verbatim>\<open>CHANNEL_COOLDOWN\<close> apart, and no rename of it, successful or not, is issued less than
  the cooldown after its latest successful rename. When the cooldown blocks a rename
  (the name differs and less than the cooldown has passed), that step of the loop reads
  the clock, logs, and does nothing else: no rename is issued and no timestamp recorded,
  so the stale name stays until a later step for that channel at which the cooldown has
  elapsed. That step is in a later cycle, or later in the same cycle when a second
  friendly name is bound to the same channel.
\<close>

theorem rename_cooldown:
  assumes "trace s = []"
  shows "sorted_wrt (\<lambda>a b. a + CHANNEL_COOLDOWN \<le> b) (rename_times ch (trace (poll_cycles en c n s)))
       \<and> cooled ch None (trace (poll_cycles en c n s))
       \<and> (\<forall>g friendly sid data s1 rv name s2.
            map_of (server_map s2) friendly = Some sid \<and> sid \<noteq> []
            \<and> get_stats en c s2 sid = (Inr data, s1)
            \<and> py_get data ''running'' JNull = Inr rv
            \<and> get_channel en (trace s1) g ch = Some name
            \<and> name \<noteq> new_name en friendly (truthy rv)
            \<and> clock en (trace s1)
                - (case map_of (channel_last_update s1) ch of None \<Rightarrow> 0 | Some t \<Rightarrow> t)
                < CHANNEL_COOLDOWN
            \<longrightarrow> update_binding en c g friendly ch s2 =
                  emit [Clock (clock en (trace s1)), Log Info (SkippingCooldown name)] s1)"
proof -
  from assms have "cooldown_inv ch s"
    by (simp add: cooldown_inv_def last_rename_def)
  then have "cooldown_inv ch (poll_cycles en c n s)" by (rule poll_cycles_inv)
  then have c: "cooled ch None (trace (poll_cycles en c n s))"
    by (simp add: cooldown_inv_def)
  from cooled_spaced [OF c]
  have "sorted_wrt (\<lambda>a b. a + CHANNEL_COOLDOWN \<le> b) (rename_times ch (trace (poll_cycles en c n s)))"
    by simp
  with c show ?thesis
    by (auto intro: update_binding_blocked)
qed

lemma shared_env_simps [simp]:
  "respond shared_env h call =
     (if call_url call = ''http://crafty/api/v2/servers/10/stats''
      then (if length h < 8 then running_body else starting_body)
      else if call_url call = ''http://crafty/api/v2/servers/11/stats'' then running_body
      else empty_list_body)"
  "clock shared_env h = (if length h \<le> 3 then 100 else if length h \<le> 6 then 101
                     else if length h \<le> 11 then 114 else 116)"
  "bot_guilds shared_env h = [1]"
  "get_channel shared_env h g ch =
     (if g = 1 \<and> ch = 7 then Some (channel_name 7 (green_circle @ '' Smp2: Online'') h) else None)"
  "edit_ok shared_env h ch name = True"
  "find_category shared_env h g name = (if g = 1 then Some 5 else None)"
  "voice_channels shared_env h cat =
     (if cat = 5 then [(7, channel_name 7 (green_circle @ '' Smp2: Online'') h)] else [])"
  by (simp_all add: shared_env_def no_discord_def)

lemma token_client_simps [simp]:
  "has_bearer token_client" "base token_client = ''http://crafty''" "verify_ssl token_client = True"
  by (simp_all add: token_client_def has_bearer_def)

lemma request_token_client:
  "token s = Some (JStr ''static'') \<Longrightarrow>
   request en token_client s ''GET'' path True no_kwargs =
     (final_result (respond en (trace s) (example_call path)),
      emit ([Http (example_call path) (respond en (trace s) (example_call path))]
            @ transport_log (final_result (respond en (trace s) (example_call path)))) s)"
  by (simp add: request_no_retry Let_def request_call_def request_headers_def example_call_def
                no_kwargs_def)

lemma capitalize_smp [simp]: "capitalize en ''smp'' = ''Smp''" "capitalize en ''smp2'' = ''Smp2''"
  by code_simp+

lemma shared_state_simps [simp]:
  "token shared_state = Some (JStr ''static'')"
  "channel_map shared_state = [(1, [(''smp'', 7), (''smp2'', 7)])]"
  "channel_last_update shared_state = []"
  "trace shared_state = []"
  "SERVERS_CFG shared_state = [(''smp'', ''10''), (''smp2'', ''11'')]"
  by (simp_all add: shared_state_def polling_cfg_def)

lemma refresh_shared:
  assumes "token s = Some (JStr ''static'')" and "SERVERS_CFG s = [(''smp'', ''10''), (''smp2'', ''11'')]"
  shows "refresh_server_map shared_env token_client s =
     (Inr (), emit [Http (example_call ''/api/v2/servers'') empty_list_body,
                    Log Info (ServerMapLogged [(''smp'', ''10''), (''smp2'', ''11'')])]
                (s\<lparr>server_map := [(''smp'', ''10''), (''smp2'', ''11'')]\<rparr>))"
  using assms
  by (simp add: refresh_server_map_def get_servers_def request_token_client
        example_call_def empty_list_body_def final_result_def Let_def resolve_def emit_def)

lemma get_stats_shared:
  assumes "token s = Some (JStr ''static'')"
  shows "get_stats shared_env token_client s ''10'' =
           (if length (trace s) < 8
            then (Inr (JObj [(''running'', JBool True)]),
                  emit [Http (example_call ''/api/v2/servers/10/stats'') running_body] s)
            else (Inr (JObj [(''running'', JBool False), (''waiting_start'', JBool True)]),
                  emit [Http (example_call ''/api/v2/servers/10/stats'') starting_body] s))"
    and "get_stats shared_env token_client s ''11'' =
           (Inr (JObj [(''running'', JBool True)]),
            emit [Http (example_call ''/api/v2/servers/11/stats'') running_body] s)"
  using assms
  by (simp_all add: get_stats_def request_token_client example_call_def running_body_def
        starting_body_def final_result_def)

lemma first_cycle_run:
  "update_task shared_env token_client shared_state = (Inr (), after_first_cycle)"
  by (simp add: update_task_def refresh_shared update_binding_def get_stats_shared Let_def
        new_name_def CHANNEL_COOLDOWN_def emit_def after_first_cycle_def first_cycle_def
        green_circle_def red_circle_def)

lemma after_first_cycle_simps [simp]:
  "token after_first_cycle = Some (JStr ''static'')"
  "channel_map after_first_cycle = [(1, [(''smp'', 7), (''smp2'', 7)])]"
  "channel_last_update after_first_cycle = [(7, 100)]"
  "trace after_first_cycle = first_cycle"
  "SERVERS_CFG after_first_cycle = [(''smp'', ''10''), (''smp2'', ''11'')]"
  "server_map after_first_cycle = [(''smp'', ''10''), (''smp2'', ''11'')]"
  by (simp_all add: after_first_cycle_def)

lemma second_cycle_run:
  "update_task shared_env token_client after_first_cycle = (Inr (), after_second_cycle)"
  by (simp add: update_task_def refresh_shared update_binding_def get_stats_shared Let_def
        new_name_def CHANNEL_COOLDOWN_def emit_def after_first_cycle_def
        after_second_cycle_def first_cycle_def second_cycle_def green_circle_def red_circle_def)

lemma two_cycles:
  "poll_cycles shared_env token_client 2 shared_state = after_second_cycle"
  by (simp add: numeral_2_eq_2 first_cycle_run second_cycle_run)

text \<open>
  The theorem at the shared channel, over two cycles: the renames are issued at 100 and
  116, and the step for \<open>smp2\<close> in the first cycle, at 101, is blocked.
\<close>

theorem rename_cooldown_witness:
  "trace shared_state = []
   \<and> rename_times 7 (trace (poll_cycles shared_env token_client 2 shared_state)) = [100, 116]
   \<and> sorted_wrt (\<lambda>a b. a + CHANNEL_COOLDOWN \<le> b)
        (rename_times 7 (trace (poll_cycles shared_env token_client 2 shared_state)))
   \<and> cooled 7 None (trace (poll_cycles shared_env token_client 2 shared_state))
   \<and> update_binding shared_env token_client 1 ''smp2'' 7
        (shared_state\<lparr>trace := take 5 first_cycle,
                       server_map := [(''smp'', ''10''), (''smp2'', ''11'')],
                       channel_last_update := [(7, 100)]\<rparr>)
       = shared_state\<lparr>trace := first_cycle,
                       server_map := [(''smp'', ''10''), (''smp2'', ''11'')],
                       channel_last_update := [(7, 100)]\<rparr>"
proof -
  have h: "trace shared_state = []" by simp
  note T = rename_cooldown [OF h, of 7 shared_env token_client 2]
  have ts: "rename_times 7 (trace (poll_cycles shared_env token_client 2 shared_state)) = [100, 116]"
    by (simp add: two_cycles after_second_cycle_def first_cycle_def second_cycle_def)
  let ?s2 = "shared_state\<lparr>trace := take 5 first_cycle,
                       server_map := [(''smp'', ''10''), (''smp2'', ''11'')],
                       channel_last_update := [(7, 100)]\<rparr>"
  let ?s1 = "emit [Http (example_call ''/api/v2/servers/11/stats'') running_body] ?s2"
  let ?name = "green_circle @ '' Smp: Online''"
  have p1: "map_of (server_map ?s2) ''smp2'' = Some ''11''" by simp
  have p2: "''11'' \<noteq> []" by simp
  have p3: "get_stats shared_env token_client ?s2 ''11'' = (Inr (JObj [(''running'', JBool True)]), ?s1)"
    by (simp add: get_stats_shared)
  have p4: "py_get (JObj [(''running'', JBool True)]) ''running'' JNull = Inr (JBool True)" by simp
  have p5: "get_channel shared_env (trace ?s1) 1 7 = Some ?name"
    by (simp add: first_cycle_def)
  have p6: "?name \<noteq> new_name shared_env ''smp2'' (truthy (JBool True))"
    by (simp add: new_name_def)
  have p7: "clock shared_env (trace ?s1)
              - (case map_of (channel_last_update ?s1) 7 of None \<Rightarrow> 0 | Some t \<Rightarrow> t)
              < CHANNEL_COOLDOWN"
    by (simp add: CHANNEL_COOLDOWN_def first_cycle_def)
  have blocked: "update_binding shared_env token_client 1 ''smp2'' 7 ?s2 =
       emit [Clock (clock shared_env (trace ?s1)), Log Info (SkippingCooldown ?name)] ?s1"
    using T [THEN conjunct2, THEN conjunct2, rule_format,
             of ?s2 "''smp2''" "''11''" _ ?s1 "JBool True" 1 ?name]
          p1 p2 p3 p4 p5 p6 p7
    by blast
  have "emit [Clock (clock shared_env (trace ?s1)), Log Info (SkippingCooldown ?name)] ?s1
        = shared_state\<lparr>trace := first_cycle,
                       server_map := [(''smp'', ''10''), (''smp2'', ''11'')],
                       channel_last_update := [(7, 100)]\<rparr>"
    by (simp add: emit_def first_cycle_def)
  with blocked have b': "update_binding shared_env token_client 1 ''smp2'' 7 ?s2
        = shared_state\<lparr>trace := first_cycle,
                       server_map := [(''smp'', ''10''), (''smp2'', ''11'')],
                       channel_last_update := [(7, 100)]\<rparr>"
    by simp
  from h ts T [THEN conjunct1] T [THEN conjunct2, THEN conjunct1] b'
  show ?thesis by blast
qed

text \<open>
  C3 as stated fails when two friendly names are bound to one channel. The first cycle
  renames the channel at clock reading 100. In the second cycle the rename wanted by
  \<open>smp\<close> is blocked at 114, and the channel is renamed for \<open>smp2\<close> at 116: the stale name
  is replaced in the same cycle, not in a later one.
\<close>

theorem blocked_then_renamed_in_one_cycle:
  "update_task shared_env token_client shared_state = (Inr (), after_first_cycle)
   \<and> channel_last_update after_first_cycle = [(7, 100)]
   \<and> fst (update_task shared_env token_client after_first_cycle) = Inr ()
   \<and> trace (snd (update_task shared_env token_client after_first_cycle)) =
       trace after_first_cycle @
         [Http (example_call ''/api/v2/servers'') empty_list_body,
          Log Info (ServerMapLogged [(''smp'', ''10''), (''smp2'', ''11'')]),
          Http (example_call ''/api/v2/servers/10/stats'') starting_body,
          Clock 114,
          Log Info (SkippingCooldown (green_circle @ '' Smp: Online'')),
          Http (example_call ''/api/v2/servers/11/stats'') running_body,
          Clock 116,
          Edit 7 (green_circle @ '' Smp2: Online'') 116 True]"
  by (simp add: first_cycle_run second_cycle_run after_second_cycle_def second_cycle_def)

lemma contains_examples [simp]:
  "contains (lower shared_env ''smp'') (lower shared_env (green_circle @ '' Smp2: Online''))"
  "contains (lower shared_env ''smp2'') (lower shared_env (green_circle @ '' Smp2: Online''))"
  by code_simp+

text \<open>The bindings of that state are what the channel setup produces.\<close>

lemma shared_channel_is_reachable:
  "ensure_channels_for_guild shared_env 1 (init_state polling_cfg) =
     (Inr (), (init_state polling_cfg)\<lparr>channel_map := [(1, [(''smp'', 7), (''smp2'', 7)])]\<rparr>)"
  by (simp add: ensure_channels_for_guild_def Let_def polling_cfg_def set_binding_def)




lemma capitalize_survival [simp]: "capitalize en ''survival'' = ''Survival''"
  by code_simp

lemma survival_simps [simp]:
  "respond survival_env h call = starting_body" "clock survival_env h = 1000"
  "get_channel survival_env h g ch = Some (green_circle @ '' Survival: Online'')"
  "edit_ok survival_env h ch name = True"
  "token survival_state = Some (JStr ''static'')"
  "server_map survival_state = [(''survival'', ''42'')]"
  "channel_last_update survival_state = []" "trace survival_state = []"
  by (simp_all add: survival_env_def survival_state_def no_discord_def)



text \<open>
  C2 at a server list request answered with status 500: \<^verbatim>\<open>update_task\<close> awaits
  \<^verbatim>\<open>refresh_server_map\<close> outside any \<^verbatim>\<open>try\<close>, so the error is neither caught nor logged
  there; it leaves the task. (In \<^verbatim>\<open>on_ready\<close> the same call is wrapped in
  \<^verbatim>\<open>try\<close>/\<^verbatim>\<open>except\<close> and logged.)
\<close>

theorem update_task_refresh_failure_escapes:
  "update_task (servers_env (Response 500 ''boom'' None)) token_client shared_state =
     (Inl (HttpError 500 ''boom''),
      shared_state\<lparr>trace := [Http (example_call ''/api/v2/servers'') (Response 500 ''boom'' None)]\<rparr>)"
  by (simp add: update_task_def refresh_server_map_def get_servers_def request_token_client
        final_result_def transport_log_def emit_def)

end
